theory Spec2Isabelle
  imports Main "HOL-Library.Sublist"
begin

section \<open>Go strings and the library functions the parser calls\<close>

text \<open>
  A Go string is a sequence of bytes, here a \<open>string\<close> (a list of 8-bit characters).
  The functions of this section are the ones \<^verbatim>\<open>struct.go\<close> imports from the Go
  standard library (\<^verbatim>\<open>strings\<close>, \<^verbatim>\<open>strconv\<close>, \<^verbatim>\<open>regexp\<close>); they are written
  from the library's documented behaviour, for the arguments this program gives them.
\<close>

subsection \<open>strings.Split, strings.Join, strings.ReplaceAll\<close>

text \<open>
  \<^verbatim>\<open>strings.Split(s, sep)\<close> cuts \<open>s\<close> at every non-overlapping occurrence of \<open>sep\<close>,
  scanning from the left; the pieces between the occurrences are returned, so the result
  always has at least one element. \<open>splitOn sep cur s\<close> carries the piece read so far.
  Every separator of this program is one byte long and never empty.
\<close>

fun splitOn :: "string \<Rightarrow> string \<Rightarrow> string \<Rightarrow> string list" where
  "splitOn sep cur [] = [cur]"
| "splitOn sep cur (c # cs) =
     (if sep \<noteq> [] \<and> prefix sep (c # cs)
      then cur # splitOn sep [] (drop (length sep) (c # cs))
      else splitOn sep (cur @ [c]) cs)"

definition strings_Split :: "string \<Rightarrow> string \<Rightarrow> string list" where
  "strings_Split s sep = (if sep = [] then map (\<lambda>c. [c]) s else splitOn sep [] s)"

fun strings_Join :: "string list \<Rightarrow> string \<Rightarrow> string" where
  "strings_Join [] sep = []"
| "strings_Join [x] sep = x"
| "strings_Join (x # y # ys) sep = x @ sep @ strings_Join (y # ys) sep"

text \<open>
  \<^verbatim>\<open>strings.ReplaceAll(s, old, new)\<close> replaces the non-overlapping occurrences of
  \<open>old\<close>, found from the left. The program calls it with a non-empty \<open>old\<close> only.
\<close>

fun strings_ReplaceAll :: "string \<Rightarrow> string \<Rightarrow> string \<Rightarrow> string" where
  "strings_ReplaceAll [] old new = []"
| "strings_ReplaceAll (c # cs) old new =
     (if old \<noteq> [] \<and> prefix old (c # cs)
      then new @ strings_ReplaceAll (drop (length old) (c # cs)) old new
      else c # strings_ReplaceAll cs old new)"

subsection \<open>strings.TrimSpace\<close>

text \<open>
  \<^verbatim>\<open>strings.TrimSpace\<close> removes the leading and then the trailing white space, rune by
  rune, as \<^verbatim>\<open>unicode.IsSpace\<close> defines it: the six ASCII characters tab, line feed,
  vertical tab, form feed, carriage return and space, and the runes U+0085, U+00A0,
  U+1680, U+2000 to U+200A, U+2028, U+2029, U+202F, U+205F and U+3000, which are two or
  three bytes long in UTF-8. \<open>spaceRunes\<close> lists their encodings.
\<close>

definition spaceRunes :: "string list" where
  "spaceRunes =
     map (\<lambda>c. [c]) [CHR 0x09, CHR 0x0A, CHR 0x0B, CHR 0x0C, CHR 0x0D, CHR '' ''] @
     [[CHR 0xC2, CHR 0x85], [CHR 0xC2, CHR 0xA0], [CHR 0xE1, CHR 0x9A, CHR 0x80]] @
     map (\<lambda>c. [CHR 0xE2, CHR 0x80, c])
       [CHR 0x80, CHR 0x81, CHR 0x82, CHR 0x83, CHR 0x84, CHR 0x85, CHR 0x86, CHR 0x87,
        CHR 0x88, CHR 0x89, CHR 0x8A, CHR 0xA8, CHR 0xA9, CHR 0xAF] @
     [[CHR 0xE2, CHR 0x81, CHR 0x9F], [CHR 0xE3, CHR 0x80, CHR 0x80]]"

definition leadingSpace :: "string \<Rightarrow> nat" where
  "leadingSpace s = (case find (\<lambda>w. prefix w s) spaceRunes of None \<Rightarrow> 0 | Some w \<Rightarrow> length w)"

definition trailingSpace :: "string \<Rightarrow> nat" where
  "trailingSpace s = (case find (\<lambda>w. suffix w s) spaceRunes of None \<Rightarrow> 0 | Some w \<Rightarrow> length w)"

function trimLeft :: "string \<Rightarrow> string" where
  "trimLeft s = (if leadingSpace s = 0 then s else trimLeft (drop (leadingSpace s) s))"
  by pat_completeness auto
termination
proof (relation "measure length")
  show "wf (measure length)" by simp
next
  fix s :: string
  assume nz: "leadingSpace s \<noteq> 0"
  have "s \<noteq> []"
  proof
    assume "s = []"
    then have "leadingSpace s = 0" by (simp add: leadingSpace_def spaceRunes_def)
    with nz show False by simp
  qed
  with nz show "(drop (leadingSpace s) s, s) \<in> measure length" by simp
qed

function trimRight :: "string \<Rightarrow> string" where
  "trimRight s =
     (if trailingSpace s = 0 then s else trimRight (take (length s - trailingSpace s) s))"
  by pat_completeness auto
termination
proof (relation "measure length")
  show "wf (measure length)" by simp
next
  fix s :: string
  assume nz: "trailingSpace s \<noteq> 0"
  have "s \<noteq> []"
  proof
    assume "s = []"
    then have "trailingSpace s = 0" by (simp add: trailingSpace_def spaceRunes_def)
    with nz show False by simp
  qed
  with nz show "(take (length s - trailingSpace s) s, s) \<in> measure length" by simp
qed

declare trimLeft.simps [simp del]
declare trimRight.simps [simp del]

definition strings_TrimSpace :: "string \<Rightarrow> string" where
  "strings_TrimSpace s = trimRight (trimLeft s)"

subsection \<open>strings.ToUpper and the regular expression of convertUpperCaseWithUnderLine\<close>

definition isLower :: "char \<Rightarrow> bool" where
  "isLower c = (of_char (CHR ''a'') \<le> (of_char c :: nat) \<and> (of_char c :: nat) \<le> of_char (CHR ''z''))"

definition isUpper :: "char \<Rightarrow> bool" where
  "isUpper c = (of_char (CHR ''A'') \<le> (of_char c :: nat) \<and> (of_char c :: nat) \<le> of_char (CHR ''Z''))"

definition isDigit :: "char \<Rightarrow> bool" where
  "isDigit c = (of_char (CHR ''0'') \<le> (of_char c :: nat) \<and> (of_char c :: nat) \<le> of_char (CHR ''9''))"

text \<open>Field names are Go identifiers; the letters outside ASCII are left as they are.\<close>

definition strings_ToUpper :: "string \<Rightarrow> string" where
  "strings_ToUpper s = map (\<lambda>c. if isLower c then char_of (of_char c - (32::nat)) else c) s"

text \<open>
  \<^verbatim>\<open>regexp.MustCompile(`([a-z0-9])([A-Z])`).ReplaceAllString(in, "${1}_${2}")\<close>:
  the matches are found from the left and do not overlap.
\<close>

fun convertUpperCaseWithUnderLine :: "string \<Rightarrow> string" where
  "convertUpperCaseWithUnderLine (a # b # cs) =
     (if (isLower a \<or> isDigit a) \<and> isUpper b
      then a # CHR ''_'' # b # convertUpperCaseWithUnderLine cs
      else a # convertUpperCaseWithUnderLine (b # cs))"
| "convertUpperCaseWithUnderLine cs = cs"

section \<open>The tag grammar and the separator search\<close>

text \<open>\<^verbatim>\<open>parseStructTags\<close>, struct.go lines 323 to 343.\<close>

definition parseStructTags :: "string \<Rightarrow> string \<times> string" where
  "parseStructTags tagVal0 =
     (let tagVal = strings_TrimSpace tagVal0 in
      if tagVal = ''-'' \<or> tagVal = [] then ([], [])
      else
        let parts = strings_Split tagVal '','';
            key = hd parts
        in if length parts < 2 then (key, [])
           else
             let parts1 = strings_ReplaceAll (parts ! 1) ''default='' [];
                 parts' = parts[1 := parts1]
             in if length parts' > 2 then (key, strings_Join (tl parts') '','')
                else (key, parts1))"

text \<open>\<^verbatim>\<open>stringSeparators\<close> (line 24) and \<^verbatim>\<open>splitStr\<close> (lines 300 to 309).\<close>

definition stringSeparators :: "string list" where
  "stringSeparators = ['','', '';'', '';'', ''-'', '' '']"

fun splitStrLoop :: "string \<Rightarrow> string list \<Rightarrow> string list \<Rightarrow> string list" where
  "splitStrLoop v [] split = split"
| "splitStrLoop v (sep # seps) split =
     (let split' = strings_Split v sep
      in if hd split' \<noteq> v then split' else splitStrLoop v seps split')"

definition splitStr :: "string \<Rightarrow> string list" where
  "splitStr v = splitStrLoop v stringSeparators []"

section \<open>strconv: integers and booleans\<close>

datatype numerr = ErrSyntax | ErrRange

datatype kind =
    KBool | KInt | KInt8 | KInt16 | KInt32 | KInt64
  | KUint | KUint8 | KUint16 | KUint32 | KUint64 | KUintptr
  | KFloat32 | KFloat64 | KComplex64 | KComplex128
  | KArray | KChan | KFunc | KInterface | KMap | KPointer | KSlice | KString | KStruct
  | KUnsafePointer

text \<open>
  The errors the parser can return: \<open>NumError\<close> is \<^verbatim>\<open>strconv.NumError{Func, Num, Err}\<close>,
  the next five are the \<^verbatim>\<open>fmt.Errorf\<close> messages of struct.go (lines 90, 99, 247, 258,
  267 and 271) with their arguments, \<open>JoinError\<close> is \<^verbatim>\<open>errors.Join\<close>, \<open>LibError\<close> an error
  of \<^verbatim>\<open>time.Parse\<close>, \<^verbatim>\<open>time.ParseDuration\<close>, \<^verbatim>\<open>url.Parse\<close> or \<^verbatim>\<open>strconv.ParseFloat\<close>,
  and \<open>UserError\<close> one returned by a \<^verbatim>\<open>ParseEnv\<close> method.
\<close>

datatype error =
    NumError string string numerr
  | KindNotPointer kind
  | DestNotStruct kind
  | NotAMap
  | WrongPairFormat string
  | CanNotBeParsed string kind
  | JoinError "error list"
  | LibError string
  | UserError string

definition maxUint64 :: nat where
  "maxUint64 = 2 ^ 64 - 1"

definition digitVal :: "char \<Rightarrow> nat" where
  "digitVal c = of_char c - of_char (CHR ''0'')"

text \<open>
  \<^verbatim>\<open>strconv.ParseUint(s, 10, 64)\<close>: the loop over the bytes of \<open>s\<close>, on \<^verbatim>\<open>uint64\<close>
  (the wrap-around of \<^verbatim>\<open>n *= 10\<close> and \<^verbatim>\<open>n + d\<close> is written out), with its cutoff
  \<^verbatim>\<open>maxUint64/10 + 1\<close>. As in Go the function returns a number and an error.
\<close>

fun parseUintLoop :: "string \<Rightarrow> nat \<Rightarrow> string \<Rightarrow> nat \<times> error option" where
  "parseUintLoop s0 n [] = (n, None)"
| "parseUintLoop s0 n (c # cs) =
     (if \<not> isDigit c then (0, Some (NumError ''ParseUint'' s0 ErrSyntax))
      else if n \<ge> maxUint64 div 10 + 1 then (maxUint64, Some (NumError ''ParseUint'' s0 ErrRange))
      else
        let m = (n * 10) mod 2 ^ 64;
            n1 = (m + digitVal c) mod 2 ^ 64
        in if n1 < m \<or> n1 > maxUint64 then (maxUint64, Some (NumError ''ParseUint'' s0 ErrRange))
           else parseUintLoop s0 n1 cs)"

definition strconv_ParseUint :: "string \<Rightarrow> nat \<times> error option" where
  "strconv_ParseUint s =
     (if s = [] then (0, Some (NumError ''ParseUint'' s ErrSyntax)) else parseUintLoop s 0 s)"

text \<open>\<^verbatim>\<open>strconv.ParseInt(s, 10, 64)\<close>: an optional sign, then \<^verbatim>\<open>ParseUint\<close>, then the
  range check against \<^verbatim>\<open>1 << 63\<close>.\<close>

definition strconv_ParseInt :: "string \<Rightarrow> int \<times> error option" where
  "strconv_ParseInt s0 =
     (if s0 = [] then (0, Some (NumError ''ParseInt'' s0 ErrSyntax))
      else
        let neg = (hd s0 = CHR ''-'');
            s = (if hd s0 = CHR ''+'' \<or> hd s0 = CHR ''-'' then tl s0 else s0)
        in case strconv_ParseUint s of
             (un, Some (NumError f n ErrSyntax)) \<Rightarrow> (0, Some (NumError ''ParseInt'' s0 ErrSyntax))
           | (un, r) \<Rightarrow>
               if \<not> neg \<and> un \<ge> 2 ^ 63 then (2 ^ 63 - 1, Some (NumError ''ParseInt'' s0 ErrRange))
               else if neg \<and> un > 2 ^ 63 then (- (2 ^ 63), Some (NumError ''ParseInt'' s0 ErrRange))
               else (if neg then - int un else int un, None))"

definition strconv_ParseBool :: "string \<Rightarrow> bool \<times> error option" where
  "strconv_ParseBool str =
     (if str \<in> set [''1'', ''t'', ''T'', ''TRUE'', ''true'', ''True''] then (True, None)
      else if str \<in> set [''0'', ''f'', ''F'', ''FALSE'', ''false'', ''False''] then (False, None)
      else (False, Some (NumError ''ParseBool'' str ErrSyntax)))"

section \<open>Types and values as reflection sees them\<close>

text \<open>
  The parser inspects its destination through \<^verbatim>\<open>reflect\<close>: a \<^verbatim>\<open>reflect.Value\<close> is a
  type together with a variable of that type. \<open>gotype\<close> has one constructor for each
  \<^verbatim>\<open>reflect.Kind\<close>, and one for each of the three types \<^verbatim>\<open>ParseValue\<close> compares with
  \<^verbatim>\<open>reflectValue.Type()\<close>: \<open>TTime\<close> is \<^verbatim>\<open>time.Time\<close> (of kind Struct), \<open>TDuration\<close> is
  \<^verbatim>\<open>time.Duration\<close> (of kind Int64) and \<open>TURLPtr\<close> is \<^verbatim>\<open>*url.URL\<close> (of kind Pointer);
  \<open>TPtr\<close> is every other pointer type. A defined type behaves as its underlying type, so
  it needs no constructor. The first argument of \<open>TStruct\<close> is \<open>Some n\<close> when the pointer
  to the struct type implements \<^verbatim>\<open>EnvParser\<close>, \<open>n\<close> naming the type; a field carries its
  name, the result of \<^verbatim>\<open>Tag.Lookup("env")\<close> and its type. An \<^verbatim>\<open>int\<close>, \<^verbatim>\<open>uint\<close> or
  \<^verbatim>\<open>uintptr\<close> is 64 bits wide.
\<close>

datatype intkind = GoInt | GoInt8 | GoInt16 | GoInt32 | GoInt64

datatype uintkind = GoUint | GoUint8 | GoUint16 | GoUint32 | GoUint64 | GoUintptr

datatype gotype =
    TBool | TInt intkind | TUint uintkind | TFloat32 | TFloat64 | TComplex64 | TComplex128
  | TArray nat gotype | TChan gotype | TFunc | TInterface | TMap gotype gotype | TPtr gotype
  | TSlice gotype | TString | TStruct "string option" "field list" | TUnsafePointer
  | TTime | TDuration | TURLPtr
and field = Field (fname: string) (ftag: "string option") (ftype: gotype)

definition intKind :: "intkind \<Rightarrow> kind" where
  "intKind k = (case k of GoInt \<Rightarrow> KInt | GoInt8 \<Rightarrow> KInt8 | GoInt16 \<Rightarrow> KInt16
                 | GoInt32 \<Rightarrow> KInt32 | GoInt64 \<Rightarrow> KInt64)"

definition uintKind :: "uintkind \<Rightarrow> kind" where
  "uintKind k = (case k of GoUint \<Rightarrow> KUint | GoUint8 \<Rightarrow> KUint8 | GoUint16 \<Rightarrow> KUint16
                  | GoUint32 \<Rightarrow> KUint32 | GoUint64 \<Rightarrow> KUint64 | GoUintptr \<Rightarrow> KUintptr)"

fun Kind :: "gotype \<Rightarrow> kind" where
  "Kind TBool = KBool"
| "Kind (TInt k) = intKind k"
| "Kind (TUint k) = uintKind k"
| "Kind TFloat32 = KFloat32"
| "Kind TFloat64 = KFloat64"
| "Kind TComplex64 = KComplex64"
| "Kind TComplex128 = KComplex128"
| "Kind (TArray n t) = KArray"
| "Kind (TChan t) = KChan"
| "Kind TFunc = KFunc"
| "Kind TInterface = KInterface"
| "Kind (TMap k t) = KMap"
| "Kind (TPtr t) = KPointer"
| "Kind (TSlice t) = KSlice"
| "Kind TString = KString"
| "Kind (TStruct impl fs) = KStruct"
| "Kind TUnsafePointer = KUnsafePointer"
| "Kind TTime = KStruct"
| "Kind TDuration = KInt64"
| "Kind TURLPtr = KPointer"

text \<open>
  The values. What the library parsers produce is opaque to the parser and is kept
  opaque here: a \<^verbatim>\<open>time.Time\<close>, a \<^verbatim>\<open>url.URL\<close> and a \<^verbatim>\<open>float64\<close> are tokens. \<open>VMap None\<close>
  is the nil map, \<open>VPtr None\<close> and \<open>VURLPtr None\<close> are nil pointers, \<open>VNil\<close> is the nil
  channel, function, interface or unsafe pointer, and \<open>VOpaque\<close> any other value of a
  kind the parser does not assign (a complex number, or a channel, function or
  interface that is not nil).
\<close>

datatype gotime = GoTime int

datatype gourl = GoURL string

datatype gofloat = Float64bits nat

datatype gval =
    VBool bool | VInt int | VUint nat | VFloat gofloat | VString string
  | VMap "(gval \<times> gval) list option" | VSlice "gval list" | VArray "gval list"
  | VStruct "gval list" | VPtr "gval option" | VTime gotime | VURLPtr "gourl option"
  | VNil | VOpaque nat

fun zero :: "gotype \<Rightarrow> gval"
  and zeroFields :: "field list \<Rightarrow> gval list" where
  "zero TBool = VBool False"
| "zero (TInt k) = VInt 0"
| "zero (TUint k) = VUint 0"
| "zero TFloat32 = VFloat (Float64bits 0)"
| "zero TFloat64 = VFloat (Float64bits 0)"
| "zero TComplex64 = VOpaque 0"
| "zero TComplex128 = VOpaque 0"
| "zero (TArray n t) = VArray (replicate n (zero t))"
| "zero (TChan t) = VNil"
| "zero TFunc = VNil"
| "zero TInterface = VNil"
| "zero (TMap k t) = VMap None"
| "zero (TPtr t) = VPtr None"
| "zero (TSlice t) = VSlice []"
| "zero TString = VString []"
| "zero (TStruct impl fs) = VStruct (zeroFields fs)"
| "zero TUnsafePointer = VNil"
| "zero TTime = VTime (GoTime 0)"
| "zero TDuration = VInt 0"
| "zero TURLPtr = VURLPtr None"
| "zeroFields [] = []"
| "zeroFields (Field n t ty # fs) = zero ty # zeroFields fs"

text \<open>
  \<^verbatim>\<open>reflect.Value.SetInt\<close> and \<^verbatim>\<open>SetUint\<close> convert the 64-bit number to the field's own
  type, which keeps its low bits (two's complement for the signed kinds).
\<close>

definition intBits :: "intkind \<Rightarrow> nat" where
  "intBits k = (case k of GoInt \<Rightarrow> 64 | GoInt8 \<Rightarrow> 8 | GoInt16 \<Rightarrow> 16 | GoInt32 \<Rightarrow> 32 | GoInt64 \<Rightarrow> 64)"

definition uintBits :: "uintkind \<Rightarrow> nat" where
  "uintBits k = (case k of GoUint \<Rightarrow> 64 | GoUint8 \<Rightarrow> 8 | GoUint16 \<Rightarrow> 16 | GoUint32 \<Rightarrow> 32
                  | GoUint64 \<Rightarrow> 64 | GoUintptr \<Rightarrow> 64)"

definition SetInt :: "intkind \<Rightarrow> int \<Rightarrow> int" where
  "SetInt k x = (x + 2 ^ (intBits k - 1)) mod 2 ^ intBits k - 2 ^ (intBits k - 1)"

definition SetUint :: "uintkind \<Rightarrow> nat \<Rightarrow> nat" where
  "SetUint k x = x mod 2 ^ uintBits k"

text \<open>\<^verbatim>\<open>reflect.Value.SetMapIndex\<close>: the entry of the key is replaced, or added.\<close>

fun SetMapIndex :: "(gval \<times> gval) list \<Rightarrow> gval \<Rightarrow> gval \<Rightarrow> (gval \<times> gval) list" where
  "SetMapIndex [] k x = [(k, x)]"
| "SetMapIndex ((k', x') # m) k x = (if k' = k then (k, x) # m else (k', x') # SetMapIndex m k x)"

section \<open>The parser\<close>

text \<open>
  \<^verbatim>\<open>Parser\<close> (lines 65 to 68). \<open>Get\<close> is a function of the key and the default: the
  value source is read, never written, during a walk.
\<close>

record Parser =
  BuildKey :: "string \<Rightarrow> string"
  Get :: "string \<Rightarrow> string \<Rightarrow> string"

text \<open>
  What the parser calls outside this repository and cannot be written out here is a
  parameter of the model: the parsers of \<^verbatim>\<open>time\<close>, \<^verbatim>\<open>net/url\<close> and of floating-point
  numbers, the conversion to \<^verbatim>\<open>float32\<close>, and the \<^verbatim>\<open>ParseEnv\<close> methods of the caller's
  types (by the name of the type, given the prefix and the struct, returning the struct
  as the method leaves it and its error).
\<close>

record golib =
  time_Parse :: "string \<Rightarrow> string \<Rightarrow> gotime \<times> error option"
  url_Parse :: "string \<Rightarrow> gourl \<times> error option"
  time_ParseDuration :: "string \<Rightarrow> int \<times> error option"
  strconv_ParseFloat :: "string \<Rightarrow> gofloat \<times> error option"
  float32 :: "gofloat \<Rightarrow> gofloat"
  ParseEnv :: "string \<Rightarrow> string \<Rightarrow> gval \<Rightarrow> gval \<times> error option"

text \<open>\<^verbatim>\<open>DefaultGetFunc\<close> and \<^verbatim>\<open>DefaultKeyFunc\<close> (lines 36 to 49) over the process
  environment, and \<^verbatim>\<open>NewParser\<close> (lines 70 to 80).\<close>

definition os_Getenv :: "(string \<rightharpoonup> string) \<Rightarrow> string \<Rightarrow> string" where
  "os_Getenv environ key = (case environ key of None \<Rightarrow> [] | Some x \<Rightarrow> x)"

definition DefaultGetFunc :: "(string \<rightharpoonup> string) \<Rightarrow> string \<Rightarrow> string \<Rightarrow> string" where
  "DefaultGetFunc environ key def = (let x = os_Getenv environ key in if x = [] then def else x)"

definition DefaultKeyFunc :: "string \<Rightarrow> string" where
  "DefaultKeyFunc key = strings_ReplaceAll (strings_TrimSpace key) ''.'' ''_''"

definition NewParser ::
  "(string \<rightharpoonup> string) \<Rightarrow> (string \<Rightarrow> string) option \<Rightarrow> (string \<Rightarrow> string \<Rightarrow> string) option \<Rightarrow> Parser" where
  "NewParser environ keyFunc valueFunc =
     \<lparr>BuildKey = (case keyFunc of None \<Rightarrow> DefaultKeyFunc | Some k \<Rightarrow> k),
      Get = (case valueFunc of None \<Rightarrow> DefaultGetFunc environ | Some g \<Rightarrow> g)\<rparr>"

text \<open>\<^verbatim>\<open>timeFormats\<close> (lines 20 to 22) and \<^verbatim>\<open>parseTime\<close> (lines 311 to 321).\<close>

definition timeFormats :: "string list" where
  "timeFormats =
     [''2006-01-02'', ''15:04:05'', ''2006-01-02 15:04:05'', ''2006-01-02 15:04:05-07:00'',
      ''3:04PM'', ''2006-01-02T15:04:05Z07:00'', ''Mon, 02 Jan 2006 15:04:05 MST'',
      ''Mon, 02 Jan 2006 15:04:05 -0700'', ''Mon Jan _2 15:04:05 2006'',
      ''2006/01/02'', ''2006/01/02 15:04:05'', ''Mon Jan _2 15:04:05 MST 2006'',
      ''Mon Jan 02 15:04:05 -0700 2006'']"

fun parseTimeLoop :: "golib \<Rightarrow> string \<Rightarrow> string list \<Rightarrow> error list \<Rightarrow> gotime \<times> error option" where
  "parseTimeLoop rt str [] errs = (GoTime 0, Some (JoinError errs))"
| "parseTimeLoop rt str (format # formats) errs =
     (case time_Parse rt format str of
        (t, None) \<Rightarrow> (t, None)
      | (t, Some e) \<Rightarrow> parseTimeLoop rt str formats (errs @ [e]))"

definition parseTime :: "golib \<Rightarrow> string \<Rightarrow> gotime \<times> error option" where
  "parseTime rt str = parseTimeLoop rt str timeFormats []"

subsection \<open>The loops of parseMap and parseArray\<close>

text \<open>
  The body of the loop of \<^verbatim>\<open>parseMap\<close> (lines 255 to 275), given the two calls of
  \<^verbatim>\<open>ParseValue\<close> on a fresh key and a fresh value (\<open>pk\<close>, \<open>pv\<close>), the kinds of the key
  and value types for the messages, the pair-tokens still to read and the map built so far.
\<close>

fun parsePairs ::
  "(string \<Rightarrow> gval \<times> error option) \<Rightarrow> (string \<Rightarrow> gval \<times> error option) \<Rightarrow> kind \<Rightarrow> kind \<Rightarrow>
   string list \<Rightarrow> (gval \<times> gval) list \<Rightarrow> gval \<times> error option" where
  "parsePairs pk pv kk vk [] m = (VMap (Some m), None)"
| "parsePairs pk pv kk vk (pair # kv) m =
     (let splt = strings_Split pair '':''
      in if length splt < 2 then (VMap (Some m), Some (WrongPairFormat pair))
         else
           let keyStr = strings_TrimSpace (splt ! 0);
               valStr = strings_TrimSpace (splt ! 1)
           in case pk keyStr of
                (k, Some e) \<Rightarrow> (VMap (Some m), Some (CanNotBeParsed keyStr kk))
              | (k, None) \<Rightarrow>
                  (case pv valStr of
                     (x, Some e) \<Rightarrow> (VMap (Some m), Some (CanNotBeParsed valStr vk))
                   | (x, None) \<Rightarrow> parsePairs pk pv kk vk kv (SetMapIndex m k x)))"

text \<open>
  The loop of \<^verbatim>\<open>parseArray\<close> (lines 288 to 295) over the elements of the resized slice
  and the pieces of the string: it stops at the first error, and the elements it has not
  reached stay as they are.
\<close>

fun parseElems ::
  "(gval \<Rightarrow> string \<Rightarrow> gval \<times> error option) \<Rightarrow> gval list \<Rightarrow> string list \<Rightarrow> gval list \<times> error option" where
  "parseElems pe (x # xs) (split # splits) =
     (case pe x split of
        (x', Some e) \<Rightarrow> (x' # xs, Some e)
      | (x', None) \<Rightarrow> (case parseElems pe xs splits of (xs', r) \<Rightarrow> (x' # xs', r)))"
| "parseElems pe xs splits = (xs, None)"

subsection \<open>ParseValue, parseMap, parseArray and the loop of ParseStruct\<close>

text \<open>\<^verbatim>\<open>StructField.IsExported\<close>: the name starts with an upper-case letter.\<close>

definition IsExported :: "field \<Rightarrow> bool" where
  "IsExported f = (case fname f of [] \<Rightarrow> False | c # cs \<Rightarrow> isUpper c)"

text \<open>Lines 114 to 117: the \<^verbatim>\<open>env\<close> tag, or the upper-cased field name.\<close>

definition tagValOf :: "field \<Rightarrow> string" where
  "tagValOf f =
     (case ftag f of
        Some t \<Rightarrow> t
      | None \<Rightarrow> strings_ToUpper (convertUpperCaseWithUnderLine (fname f)))"

text \<open>Lines 121 to 123: \<^verbatim>\<open>key = fmt.Sprintf("%s.%s", prefix, key)\<close> under a prefix.\<close>

definition composeKey :: "string \<Rightarrow> string \<Rightarrow> string" where
  "composeKey pfx key = (if pfx \<noteq> [] then pfx @ ''.'' @ key else key)"

definition consResult :: "gval \<Rightarrow> gval list \<times> error option \<Rightarrow> gval list \<times> error option" where
  "consResult v r = (v # fst r, snd r)"

text \<open>
  \<^verbatim>\<open>ParseValue\<close> (lines 143 to 241) takes a \<^verbatim>\<open>reflect.Value\<close>, here the type and the
  variable's present content, and returns the content it leaves and its error. Every
  \<^verbatim>\<open>reflect.Value\<close> the walk reaches can be set (an exported field of an addressable
  struct, an element of a slice, a fresh key or value of a map), so the test of line 144
  never fires on them. The equations follow the source: the function kind, the three
  types of the first switch, then the kinds of the second, and last the kinds that
  have no case.

  \<open>ParseStructFields p rt pfx fs vs\<close> is the loop of \<^verbatim>\<open>ParseStruct\<close> (lines 105 to
  138) under the prefix \<open>pfx\<close>, over the fields still to visit and their contents. The nested call of line 237
  is that loop with the key as the new prefix, since its destination is a pointer to a
  struct; \<open>ParseStruct\<close> itself, with its tests on the destination, comes below.

  The test of line 233 for the empty struct type is the test that the struct has no
  field (a struct type with no field is walked to the same effect). A content that is not
  of the type given with it does not occur in Go; the functions leave it as it is.

  \<^verbatim>\<open>parseArray\<close> resizes the slice to the number of pieces first; the elements
  beyond the old length start as zero values (the spare capacity of a slice the caller
  has not cut down holds zero values).
\<close>

function (sequential)
  ParseValue :: "Parser \<Rightarrow> golib \<Rightarrow> gotype \<Rightarrow> gval \<Rightarrow> string \<Rightarrow> string \<Rightarrow> string \<Rightarrow> gval \<times> error option"
  and parseMap :: "Parser \<Rightarrow> golib \<Rightarrow> gotype \<Rightarrow> gval \<Rightarrow> string \<Rightarrow> gval \<times> error option"
  and parseArray :: "Parser \<Rightarrow> golib \<Rightarrow> string \<Rightarrow> gotype \<Rightarrow> gval \<Rightarrow> string \<Rightarrow> gval \<times> error option"
  and ParseStructFields ::
    "Parser \<Rightarrow> golib \<Rightarrow> string \<Rightarrow> field list \<Rightarrow> gval list \<Rightarrow> gval list \<times> error option"
where
  "ParseValue p rt TFunc v strValue pfx key = (v, None)"
| "ParseValue p rt TTime v strValue pfx key =
     (case parseTime rt strValue of
        (t, Some e) \<Rightarrow> (v, Some e)
      | (t, None) \<Rightarrow> (VTime t, None))"
| "ParseValue p rt TURLPtr v strValue pfx key =
     (case url_Parse rt strValue of
        (u, Some e) \<Rightarrow> (v, Some e)
      | (u, None) \<Rightarrow> (VURLPtr (Some u), None))"
| "ParseValue p rt TDuration v strValue pfx key =
     (case time_ParseDuration rt strValue of
        (d, Some e) \<Rightarrow> (v, Some e)
      | (d, None) \<Rightarrow> (VInt d, None))"
| "ParseValue p rt TString v strValue pfx key = (VString strValue, None)"
| "ParseValue p rt (TInt k) v strValue pfx key =
     (case strconv_ParseInt strValue of
        (n, Some e) \<Rightarrow> (v, Some e)
      | (n, None) \<Rightarrow> (VInt (SetInt k n), None))"
| "ParseValue p rt (TUint k) v strValue pfx key =
     (case strconv_ParseUint strValue of
        (n, Some e) \<Rightarrow> (v, Some e)
      | (n, None) \<Rightarrow> (VUint (SetUint k n), None))"
| "ParseValue p rt TFloat32 v strValue pfx key =
     (case strconv_ParseFloat rt strValue of
        (f, Some e) \<Rightarrow> (v, Some e)
      | (f, None) \<Rightarrow> (VFloat (float32 rt f), None))"
| "ParseValue p rt TFloat64 v strValue pfx key =
     (case strconv_ParseFloat rt strValue of
        (f, Some e) \<Rightarrow> (v, Some e)
      | (f, None) \<Rightarrow> (VFloat f, None))"
| "ParseValue p rt TBool v strValue pfx key =
     (case strconv_ParseBool strValue of
        (b, Some e) \<Rightarrow> (v, Some e)
      | (b, None) \<Rightarrow> (VBool b, None))"
| "ParseValue p rt (TMap kt vt) v strValue pfx key = parseMap p rt (TMap kt vt) v strValue"
| "ParseValue p rt (TSlice et) v strValue pfx key = parseArray p rt strValue (TSlice et) v key"
| "ParseValue p rt (TStruct impl fs) v strValue pfx key =
     (case impl of
        Some tn \<Rightarrow> ParseEnv rt tn key v
      | None \<Rightarrow>
          if fs = [] then (v, None)
          else
            (case v of
               VStruct vs \<Rightarrow> (case ParseStructFields p rt key fs vs of (vs', r) \<Rightarrow> (VStruct vs', r))
             | _ \<Rightarrow> (v, None)))"
| "ParseValue p rt ty v strValue pfx key = (v, None)"
| "parseMap p rt (TMap kt vt) v str =
     parsePairs (\<lambda>keyStr. ParseValue p rt kt (zero kt) keyStr [] [])
       (\<lambda>valStr. ParseValue p rt vt (zero vt) valStr [] [])
       (Kind kt) (Kind vt) (splitStr str) []"
| "parseMap p rt ty v str = (v, Some NotAMap)"
| "parseArray p rt str (TSlice et) v currentKey =
     (let splits = splitStr str;
          old = (case v of VSlice xs \<Rightarrow> xs | _ \<Rightarrow> []);
          resized = take (length splits) (old @ replicate (length splits - length old) (zero et))
      in case parseElems (\<lambda>x split. ParseValue p rt et x (strings_TrimSpace split) currentKey [])
                resized splits of
           (xs, r) \<Rightarrow> (VSlice xs, r))"
| "parseArray p rt str ty v currentKey = (v, None)"
| "ParseStructFields p rt pfx [] vs = (vs, None)"
| "ParseStructFields p rt pfx (Field n t ty # fs) [] = ([], None)"
| "ParseStructFields p rt pfx (Field n t ty # fs) (v # vs) =
     (if \<not> IsExported (Field n t ty) then consResult v (ParseStructFields p rt pfx fs vs)
      else
        let key = composeKey pfx (fst (parseStructTags (tagValOf (Field n t ty))));
            def = snd (parseStructTags (tagValOf (Field n t ty)));
            strValues = Get p (BuildKey p key) def
        in if strValues = [] \<and> Kind ty \<noteq> KStruct
           then consResult v (ParseStructFields p rt pfx fs vs)
           else
             (case ParseValue p rt ty v strValues pfx key of
                (v', Some e) \<Rightarrow> (v' # vs, Some e)
              | (v', None) \<Rightarrow> consResult v' (ParseStructFields p rt pfx fs vs)))"
  by pat_completeness auto
termination
  by (relation "measure (\<lambda>x. case x of
        Inl (Inl (p, rt, ty, v, s, pfx, key)) \<Rightarrow> 2 * size ty + 1
      | Inl (Inr (p, rt, ty, v, s)) \<Rightarrow> 2 * size ty
      | Inr (Inl (p, rt, s, ty, v, k)) \<Rightarrow> 2 * size ty
      | Inr (Inr (p, rt, pfx, fs, vs)) \<Rightarrow> 2 * size_list size fs + 2)") auto

declare ParseValue.simps [simp del]
declare parseMap.simps [simp del]
declare parseArray.simps [simp del]
declare ParseStructFields.simps [simp del]

subsection \<open>ParseStruct\<close>

text \<open>
  The destination of \<^verbatim>\<open>ParseStruct\<close> is an \<^verbatim>\<open>interface{}\<close>: the nil interface, a value
  of a type that is not a pointer type, a nil pointer to a variable of some type, or a
  pointer to a variable of some type with its content. The function returns an error or
  panics; the destination is returned with the error, as the walk leaves it.

  Lines 86 to 103. \<^verbatim>\<open>reflect.ValueOf(dest)\<close> is not addressable (only what is reached
  through a pointer, a slice or an addressable struct or array is), so the
  \<^verbatim>\<open>dst.Set\<close> of line 94, reached on a nil pointer, panics, as \<^verbatim>\<open>Set\<close> does on every
  value that cannot be set; \<^verbatim>\<open>dst.Type()\<close> of line 87 panics on the zero
  \<^verbatim>\<open>reflect.Value\<close> of the nil interface. Beside the struct types, \<^verbatim>\<open>time.Time\<close> is of
  kind Struct: its fields are not exported and the loop skips each of them.
\<close>

datatype dest = NilInterface | NonPointer gotype gval | NilPointer gotype | PointerTo gotype gval

datatype 'a outcome = Panics string | Returns 'a

definition ParseStruct :: "Parser \<Rightarrow> golib \<Rightarrow> dest \<Rightarrow> string \<Rightarrow> (dest \<times> error option) outcome" where
  "ParseStruct p rt dst pfx =
     (case dst of
        NilInterface \<Rightarrow> Panics ''reflect: call of reflect.Value.Type on zero Value''
      | NonPointer ty v \<Rightarrow> Returns (dst, Some (KindNotPointer (Kind ty)))
      | NilPointer elm \<Rightarrow> Panics ''reflect: reflect.Value.Set using unaddressable value''
      | PointerTo elm v \<Rightarrow>
          if Kind elm \<noteq> KStruct then Returns (dst, Some (DestNotStruct (Kind elm)))
          else
            (case (elm, v) of
               (TStruct impl fs, VStruct vs) \<Rightarrow>
                 (case ParseStructFields p rt pfx fs vs of
                    (vs', r) \<Rightarrow> Returns (PointerTo elm (VStruct vs'), r))
             | _ \<Rightarrow> Returns (dst, None)))"

subsection \<open>Base-10 numerals\<close>

text \<open>
  What the claims about integers call a base-10 numeral, to compare \<^verbatim>\<open>strconv\<close> with:
  one digit or more, the number they denote, and for the signed kinds a sign before them.
\<close>

definition decimalValue :: "string \<Rightarrow> nat" where
  "decimalValue ds = foldl (\<lambda>n c. 10 * n + digitVal c) 0 ds"

definition isNumeral :: "string \<Rightarrow> bool" where
  "isNumeral ds = (ds \<noteq> [] \<and> list_all isDigit ds)"

definition signedNumeral :: "string \<Rightarrow> int option" where
  "signedNumeral s =
     (case s of
        [] \<Rightarrow> None
      | c # cs \<Rightarrow>
          if c = CHR ''-'' then (if isNumeral cs then Some (- int (decimalValue cs)) else None)
          else if c = CHR ''+'' then (if isNumeral cs then Some (int (decimalValue cs)) else None)
          else if isNumeral s then Some (int (decimalValue s)) else None)"

subsection \<open>A chain of nested structs\<close>

text \<open>
  The shape the claim about nested keys speaks of, at any depth: a struct whose one field
  \<^verbatim>\<open>S\<close> carries an \<^verbatim>\<open>env\<close> tag and is a struct of the same shape, down to a type at the
  bottom; and a value of that shape.
\<close>

fun nestedStruct :: "string list \<Rightarrow> gotype \<Rightarrow> gotype" where
  "nestedStruct [] ty = ty"
| "nestedStruct (tg # tgs) ty = TStruct None [Field ''S'' (Some tg) (nestedStruct tgs ty)]"

fun nestedValue :: "nat \<Rightarrow> gval \<Rightarrow> gval" where
  "nestedValue 0 v = v"
| "nestedValue (Suc n) v = VStruct [nestedValue n v]"

section \<open>Splitting: facts about strings.Split on a one-byte separator\<close>

lemma splitOn_absent: "c \<notin> set s \<Longrightarrow> splitOn [c] cur s = [cur @ s]"
  by (induction s arbitrary: cur) auto

lemma splitOn_present:
  "c \<in> set s \<Longrightarrow>
   splitOn [c] cur s = (cur @ takeWhile (\<lambda>x. x \<noteq> c) s) # splitOn [c] [] (tl (dropWhile (\<lambda>x. x \<noteq> c) s))"
  by (induction s arbitrary: cur) auto

lemma splitOn_nonempty: "splitOn sep cur s \<noteq> []"
  by (induction sep cur s rule: splitOn.induct) auto

lemma Split_absent: "c \<notin> set s \<Longrightarrow> strings_Split s [c] = [s]"
  by (simp add: strings_Split_def splitOn_absent)

lemma Split_present:
  "c \<in> set s \<Longrightarrow>
   strings_Split s [c] = takeWhile (\<lambda>x. x \<noteq> c) s # strings_Split (tl (dropWhile (\<lambda>x. x \<noteq> c) s)) [c]"
  by (simp add: strings_Split_def splitOn_present)

lemma Split_nonempty: "strings_Split s [c] \<noteq> []"
  by (simp add: strings_Split_def splitOn_nonempty)

lemma takeWhile_neq_self: "c \<in> set s \<Longrightarrow> takeWhile (\<lambda>x. x \<noteq> c) s \<noteq> s"
  by (metis (mono_tags, lifting) takeWhile_eq_all_conv)

lemma Split_pieces: "1 < length (strings_Split s [c]) \<longleftrightarrow> c \<in> set s"
proof (cases "c \<in> set s")
  case True
  have "strings_Split (tl (dropWhile (\<lambda>x. x \<noteq> c) s)) [c] \<noteq> []" by (rule Split_nonempty)
  then have "0 < length (strings_Split (tl (dropWhile (\<lambda>x. x \<noteq> c) s)) [c])" by simp
  with True show ?thesis by (simp add: Split_present)
next
  case False
  then show ?thesis by (simp add: Split_absent)
qed

lemma Split_hd_changed: "hd (strings_Split s [c]) \<noteq> s \<longleftrightarrow> c \<in> set s"
proof (cases "c \<in> set s")
  case True
  then show ?thesis by (simp add: Split_present takeWhile_neq_self)
next
  case False
  then show ?thesis by (simp add: Split_absent)
qed

lemma splitStrLoop_find:
  "\<forall>sep \<in> set seps. \<exists>c. sep = [c] \<Longrightarrow>
   splitStrLoop v seps split =
     (case find (\<lambda>sep. 1 < length (strings_Split v sep)) seps of
        Some sep \<Rightarrow> strings_Split v sep
      | None \<Rightarrow> if seps = [] then split else [v])"
proof (induction seps arbitrary: split)
  case Nil
  then show ?case by simp
next
  case (Cons sep seps)
  then obtain c where c: "sep = [c]" by auto
  from Cons have IH: "\<And>split. splitStrLoop v seps split =
     (case find (\<lambda>sep. 1 < length (strings_Split v sep)) seps of
        Some sep \<Rightarrow> strings_Split v sep
      | None \<Rightarrow> if seps = [] then split else [v])" by simp
  show ?case
  proof (cases "c \<in> set v")
    case True
    then have "1 < length (strings_Split v [c])" and "hd (strings_Split v [c]) \<noteq> v"
      using Split_pieces Split_hd_changed by blast+
    then show ?thesis using c by (simp add: Let_def)
  next
    case False
    then have "strings_Split v [c] = [v]" by (rule Split_absent)
    then show ?thesis using c IH by (simp add: Let_def split: option.splits)
  qed
qed

lemma splitStr_find:
  "splitStr v =
     (case find (\<lambda>sep. 1 < length (strings_Split v sep)) stringSeparators of
        Some sep \<Rightarrow> strings_Split v sep
      | None \<Rightarrow> [v])"
proof -
  have "\<forall>sep \<in> set stringSeparators. \<exists>c. sep = [c]" by (simp add: stringSeparators_def)
  from splitStrLoop_find [OF this, of v "[]"] show ?thesis
    by (simp add: splitStr_def stringSeparators_def)
qed

lemma splitStr_single:
  assumes "\<forall>sep \<in> set stringSeparators. length (strings_Split v sep) \<le> 1"
  shows "splitStr v = [v]"
proof -
  from assms have "find (\<lambda>sep. 1 < length (strings_Split v sep)) stringSeparators = None"
    by (auto simp: find_None_iff)
  then show ?thesis by (simp add: splitStr_find)
qed

lemma TrimSpace_abc: "strings_TrimSpace ''abc'' = ''abc''"
  by (simp add: strings_TrimSpace_def trimLeft.simps trimRight.simps leadingSpace_def
      trailingSpace_def spaceRunes_def suffix_def)

section \<open>The kinds without a case (claim C10)\<close>

text \<open>
  Claim C10. \<^verbatim>\<open>ParseValue\<close> has no case for a pointer type other than \<^verbatim>\<open>*url.URL\<close>, a
  channel, an interface, a complex number or a function (nor for an array or an unsafe
  pointer): it returns the variable as it was and no error, whatever the string is. So a
  field that is a pointer to a struct is neither allocated nor walked, where a field
  that is the struct itself is walked with the key as the new prefix; and the loop of
  \<^verbatim>\<open>ParseStruct\<close> goes on to the next field with such a field unchanged.
\<close>

theorem unhandled_kinds_unchanged:
  "(Kind ty \<in> {KPointer, KChan, KInterface, KComplex64, KComplex128, KFunc, KArray, KUnsafePointer}
      \<and> ty \<noteq> TURLPtr \<longrightarrow>
      ParseValue p rt ty v strValue pfx key = (v, None)
      \<and> (IsExported (Field n t ty) \<longrightarrow>
           ParseStructFields p rt pfx (Field n t ty # fs') (v # vs) =
             consResult v (ParseStructFields p rt pfx fs' vs)))
   \<and> ParseValue p rt (TPtr (TStruct impl fs)) v strValue pfx key = (v, None)
   \<and> (fs \<noteq> [] \<longrightarrow>
        ParseValue p rt (TStruct None fs) (VStruct ws) strValue pfx key =
          (case ParseStructFields p rt key fs ws of (ws', r) \<Rightarrow> (VStruct ws', r)))"
proof (intro conjI impI)
  assume a: "Kind ty \<in> {KPointer, KChan, KInterface, KComplex64, KComplex128, KFunc, KArray, KUnsafePointer}
      \<and> ty \<noteq> TURLPtr"
  then show u: "ParseValue p rt ty v strValue pfx key = (v, None)" for strValue key
    by (cases ty) (simp_all add: ParseValue.simps intKind_def uintKind_def split: intkind.splits uintkind.splits)
  assume "IsExported (Field n t ty)"
  then show "ParseStructFields p rt pfx (Field n t ty # fs') (v # vs) =
        consResult v (ParseStructFields p rt pfx fs' vs)"
    by (simp add: ParseStructFields.simps Let_def u)
next
  show "ParseValue p rt (TPtr (TStruct impl fs)) v strValue pfx key = (v, None)"
    by (simp add: ParseValue.simps)
next
  assume "fs \<noteq> []"
  then show "ParseValue p rt (TStruct None fs) (VStruct ws) strValue pfx key =
          (case ParseStructFields p rt key fs ws of (ws', r) \<Rightarrow> (VStruct ws', r))"
    by (simp add: ParseValue.simps)
qed

theorem unhandled_kinds_unchanged_witness:
  "\<forall>p rt. ParseValue p rt (TPtr (TStruct None [Field ''Port'' None (TInt GoInt)])) (VPtr None) ''8080'' ''APP'' ''APP.SERVER''
             = (VPtr None, None)
          \<and> ParseValue p rt (TChan TString) VNil ''x'' [] ''CH'' = (VNil, None)
          \<and> ParseValue p rt TComplex128 (VOpaque 7) ''1+2i'' [] ''C'' = (VOpaque 7, None)
          \<and> ParseStructFields p rt ''APP'' [Field ''Next'' None (TPtr TString)] [VPtr None] = ([VPtr None], None)"
proof (intro allI conjI)
  fix p :: Parser and rt :: golib
  show "ParseValue p rt (TPtr (TStruct None [Field ''Port'' None (TInt GoInt)])) (VPtr None) ''8080'' ''APP'' ''APP.SERVER''
             = (VPtr None, None)"
    using unhandled_kinds_unchanged [of "TPtr (TStruct None [Field ''Port'' None (TInt GoInt)])" p rt]
    by simp
  show "ParseValue p rt (TChan TString) VNil ''x'' [] ''CH'' = (VNil, None)"
    using unhandled_kinds_unchanged [of "TChan TString" p rt] by simp
  show "ParseValue p rt TComplex128 (VOpaque 7) ''1+2i'' [] ''C'' = (VOpaque 7, None)"
    using unhandled_kinds_unchanged [of "TComplex128" p rt] by simp
  show "ParseStructFields p rt ''APP'' [Field ''Next'' None (TPtr TString)] [VPtr None] = ([VPtr None], None)"
    using unhandled_kinds_unchanged [of "TPtr TString" p rt "VPtr None" _ "''APP''" _ "''Next''" None "[]" "[]"]
    by (simp add: IsExported_def isUpper_def ParseStructFields.simps consResult_def)
qed

section \<open>A nil destination (claim C6)\<close>

text \<open>
  Claim C6 says that \<^verbatim>\<open>ParseStruct\<close> allocates the struct when the destination is a nil
  pointer and goes on with the walk. Lines 93 to 95 try to: they call \<^verbatim>\<open>dst.Set\<close> on
  \<^verbatim>\<open>reflect.ValueOf(dest)\<close>, which cannot be set, so the call panics, before the
  test that the pointer's element is a struct.
\<close>

theorem nil_pointer_panics:
  "ParseStruct p rt (NilPointer ty) pfx = Panics ''reflect: reflect.Value.Set using unaddressable value''"
  by (simp add: ParseStruct_def)

section \<open>Pair-tokens of a map (claim C4)\<close>

lemma takeWhile_until: "c \<notin> set k \<Longrightarrow> takeWhile (\<lambda>y. y \<noteq> c) (k @ c # r) = k"
  by (induction k) auto

lemma dropWhile_until: "c \<notin> set k \<Longrightarrow> dropWhile (\<lambda>y. y \<noteq> c) (k @ c # r) = c # r"
  by (induction k) auto

lemma Split_two_parts:
  assumes k: "c \<notin> set k" and x: "c \<notin> set x" and r: "rest = [] \<or> hd rest = c"
  shows "\<exists>more. strings_Split (k @ [c] @ x @ rest) [c] = k # x # more"
proof -
  have in1: "c \<in> set (k @ [c] @ x @ rest)" by simp
  have tw: "takeWhile (\<lambda>y. y \<noteq> c) (k @ [c] @ x @ rest) = k"
    using k by (simp add: takeWhile_until)
  have dw: "dropWhile (\<lambda>y. y \<noteq> c) (k @ [c] @ x @ rest) = [c] @ x @ rest"
    using k by (simp add: dropWhile_until)
  have first: "strings_Split (k @ [c] @ x @ rest) [c] = k # strings_Split (x @ rest) [c]"
    using Split_present [OF in1] tw dw by simp
  show ?thesis
  proof (cases rest)
    case Nil
    then show ?thesis using first x by (simp add: Split_absent)
  next
    case (Cons a rs)
    with r have a: "a = c" by simp
    have in2: "c \<in> set (x @ rest)" using Cons a by simp
    have "takeWhile (\<lambda>y. y \<noteq> c) (x @ rest) = x"
      using x Cons a by (simp add: takeWhile_until)
    with Split_present [OF in2] first show ?thesis by simp
  qed
qed

lemma parsePairs_no_colon:
  assumes "CHR '':'' \<notin> set pair"
  shows "parsePairs pk pv kk vk (pair # kv) m = (VMap (Some m), Some (WrongPairFormat pair))"
  using assms by (simp add: Split_absent)

lemma parsePairs_two_parts:
  assumes "CHR '':'' \<notin> set k" and "CHR '':'' \<notin> set x" and "rest = [] \<or> hd rest = CHR '':''"
  shows "parsePairs pk pv kk vk ((k @ '':'' @ x @ rest) # kv) m =
     (case pk (strings_TrimSpace k) of
        (a, Some e) \<Rightarrow> (VMap (Some m), Some (CanNotBeParsed (strings_TrimSpace k) kk))
      | (a, None) \<Rightarrow>
          (case pv (strings_TrimSpace x) of
             (b, Some e) \<Rightarrow> (VMap (Some m), Some (CanNotBeParsed (strings_TrimSpace x) vk))
           | (b, None) \<Rightarrow> parsePairs pk pv kk vk kv (SetMapIndex m a b)))"
proof -
  from Split_two_parts [OF assms] obtain more
    where "strings_Split (k @ '':'' @ x @ rest) '':'' = k # x # more" by auto
  then show ?thesis by (simp add: Let_def)
qed

text \<open>
  Claim C4, amended. \<^verbatim>\<open>parseMap\<close> runs its loop over the pair-tokens of \<^verbatim>\<open>splitStr\<close>.
  A token with no colon stops the loop with the format error that carries the token. A
  token with a colon is cut at every colon: the key is the trimmed text before the first
  colon, the value is the trimmed text between the first colon and the second (or the
  end of the token), and what follows a second colon is dropped. So the token
  \<^verbatim>\<open>1:Hello world\<close> gives the key \<^verbatim>\<open>1\<close> and the value \<^verbatim>\<open>Hello world\<close>, and the
  token \<^verbatim>\<open>k:a:b\<close> the value \<^verbatim>\<open>a\<close>.
\<close>

theorem parseMap_pair_token:
  "parseMap p rt (TMap kt vt) old str =
     parsePairs (\<lambda>keyStr. ParseValue p rt kt (zero kt) keyStr [] [])
       (\<lambda>valStr. ParseValue p rt vt (zero vt) valStr [] [])
       (Kind kt) (Kind vt) (splitStr str) []
   \<and> (CHR '':'' \<notin> set pair \<longrightarrow>
        parsePairs pk pv kk vk (pair # kv) m = (VMap (Some m), Some (WrongPairFormat pair)))
   \<and> (CHR '':'' \<notin> set k \<and> CHR '':'' \<notin> set x \<and> (rest = [] \<or> hd rest = CHR '':'') \<longrightarrow>
        parsePairs pk pv kk vk ((k @ '':'' @ x @ rest) # kv) m =
          (case pk (strings_TrimSpace k) of
             (a, Some e) \<Rightarrow> (VMap (Some m), Some (CanNotBeParsed (strings_TrimSpace k) kk))
           | (a, None) \<Rightarrow>
               (case pv (strings_TrimSpace x) of
                  (b, Some e) \<Rightarrow> (VMap (Some m), Some (CanNotBeParsed (strings_TrimSpace x) vk))
                | (b, None) \<Rightarrow> parsePairs pk pv kk vk kv (SetMapIndex m a b))))"
proof (intro conjI impI)
  show "parseMap p rt (TMap kt vt) old str =
     parsePairs (\<lambda>keyStr. ParseValue p rt kt (zero kt) keyStr [] [])
       (\<lambda>valStr. ParseValue p rt vt (zero vt) valStr [] [])
       (Kind kt) (Kind vt) (splitStr str) []"
    by (simp add: parseMap.simps)
next
  assume "CHR '':'' \<notin> set pair"
  then show "parsePairs pk pv kk vk (pair # kv) m = (VMap (Some m), Some (WrongPairFormat pair))"
    by (rule parsePairs_no_colon)
next
  assume "CHR '':'' \<notin> set k \<and> CHR '':'' \<notin> set x \<and> (rest = [] \<or> hd rest = CHR '':'')"
  then show "parsePairs pk pv kk vk ((k @ '':'' @ x @ rest) # kv) m =
          (case pk (strings_TrimSpace k) of
             (a, Some e) \<Rightarrow> (VMap (Some m), Some (CanNotBeParsed (strings_TrimSpace k) kk))
           | (a, None) \<Rightarrow>
               (case pv (strings_TrimSpace x) of
                  (b, Some e) \<Rightarrow> (VMap (Some m), Some (CanNotBeParsed (strings_TrimSpace x) vk))
                | (b, None) \<Rightarrow> parsePairs pk pv kk vk kv (SetMapIndex m a b)))"
    using parsePairs_two_parts by blast
qed

lemma TrimSpace_plain:
  "strings_TrimSpace ''k'' = ''k''" "strings_TrimSpace ''a'' = ''a''"
  "strings_TrimSpace ''1'' = ''1''" "strings_TrimSpace ''Hello world'' = ''Hello world''"
  "strings_TrimSpace ''nocolon'' = ''nocolon''"
  by (simp_all add: strings_TrimSpace_def trimLeft.simps trimRight.simps leadingSpace_def
      trailingSpace_def spaceRunes_def suffix_def)

theorem parseMap_pair_token_witness:
  "\<forall>p rt. parseMap p rt (TMap TString TString) (VMap None) ''k:a:b'' = (VMap (Some [(VString ''k'', VString ''a'')]), None)
       \<and> parsePairs (\<lambda>s. ParseValue p rt TString (VString []) s [] []) (\<lambda>s. ParseValue p rt TString (VString []) s [] [])
              KString KString [''1:Hello world''] [] = (VMap (Some [(VString ''1'', VString ''Hello world'')]), None)
       \<and> parseMap p rt (TMap TString TString) (VMap None) ''nocolon'' = (VMap (Some []), Some (WrongPairFormat ''nocolon''))"
proof (intro allI conjI)
  fix p :: Parser and rt :: golib
  have s1: "splitStr ''k:a:b'' = [''k:a:b'']" 
    by (simp add: splitStr_def stringSeparators_def strings_Split_def)
  have s2: "splitStr ''nocolon'' = [''nocolon'']" 
    by (simp add: splitStr_def stringSeparators_def strings_Split_def)
  show "parseMap p rt (TMap TString TString) (VMap None) ''k:a:b'' = (VMap (Some [(VString ''k'', VString ''a'')]), None)"
    using parseMap_pair_token [of p rt TString TString "VMap None" "''k:a:b''" "[]" _ _ _ _ "[]" "[]" "''k''" "''a''" "'':b''"] s1
    by (simp add: ParseValue.simps TrimSpace_plain)
  show "parsePairs (\<lambda>s. ParseValue p rt TString (VString []) s [] []) (\<lambda>s. ParseValue p rt TString (VString []) s [] [])
              KString KString [''1:Hello world''] [] = (VMap (Some [(VString ''1'', VString ''Hello world'')]), None)"
    using parseMap_pair_token [of p rt TString TString "VMap None" "[]" "[]"
        "\<lambda>s. ParseValue p rt TString (VString []) s [] []" "\<lambda>s. ParseValue p rt TString (VString []) s [] []"
         KString KString "[]" "[]" "''1''" "''Hello world''" "[]"]
    by (simp add: ParseValue.simps TrimSpace_plain)
  show "parseMap p rt (TMap TString TString) (VMap None) ''nocolon'' = (VMap (Some []), Some (WrongPairFormat ''nocolon''))"
    using parseMap_pair_token [of p rt TString TString "VMap None" "''nocolon''" "''nocolon''" _ _ _ _ "[]" "[]"] s2
    by simp
qed

text \<open>
  The claim as it stands (the value keeps the colons after the first) fails on the
  token \<^verbatim>\<open>k:a:b\<close>: the value stored is \<^verbatim>\<open>a\<close>, not \<^verbatim>\<open>a:b\<close>.
\<close>

theorem parseMap_second_colon_counterexample:
  "\<forall>p rt. parseMap p rt (TMap TString TString) (VMap None) ''k:a:b'' = (VMap (Some [(VString ''k'', VString ''a'')]), None)
        \<and> parseMap p rt (TMap TString TString) (VMap None) ''k:a:b'' \<noteq> (VMap (Some [(VString ''k'', VString ''a:b'')]), None)"
proof (intro allI)
  fix p :: Parser and rt :: golib
  have s1: "splitStr ''k:a:b'' = [''k:a:b'']" 
    by (simp add: splitStr_def stringSeparators_def strings_Split_def)
  have "parseMap p rt (TMap TString TString) (VMap None) ''k:a:b'' = (VMap (Some [(VString ''k'', VString ''a'')]), None)"
    by (simp add: parseMap.simps s1 strings_Split_def Let_def ParseValue.simps TrimSpace_plain)
  then show "parseMap p rt (TMap TString TString) (VMap None) ''k:a:b'' = (VMap (Some [(VString ''k'', VString ''a'')]), None)
        \<and> parseMap p rt (TMap TString TString) (VMap None) ''k:a:b'' \<noteq> (VMap (Some [(VString ''k'', VString ''a:b'')]), None)"
    by simp
qed

section \<open>The separator search (claim C9)\<close>

lemma parseArray_one_piece:
  assumes "splitStr v = [v]"
  shows "parseArray p rt v (TSlice et) old k =
           (case ParseValue p rt et (case old of VSlice (x # xs) \<Rightarrow> x | _ \<Rightarrow> zero et)
                   (strings_TrimSpace v) k [] of
              (x, r) \<Rightarrow> (VSlice [x], r))"
proof (cases old)
  case (VSlice ys)
  with assms show ?thesis
    by (cases ys) (simp_all add: parseArray.simps Let_def split: prod.splits option.splits)
qed (use assms in \<open>simp_all add: parseArray.simps Let_def split: prod.splits option.splits\<close>)

lemma parseMap_one_piece:
  assumes "splitStr v = [v]"
  shows "parseMap p rt (TMap kt vt) old v =
           parsePairs (\<lambda>keyStr. ParseValue p rt kt (zero kt) keyStr [] [])
             (\<lambda>valStr. ParseValue p rt vt (zero vt) valStr [] [])
             (Kind kt) (Kind vt) [v] []"
  using assms by (simp add: parseMap.simps)

lemma parseMap_one_pair:
  assumes s: "splitStr v = [v]"
    and v: "v = ky @ '':'' @ x @ rest"
    and k: "CHR '':'' \<notin> set ky" and x: "CHR '':'' \<notin> set x" and r: "rest = [] \<or> hd rest = CHR '':''"
    and a: "ParseValue p rt kt (zero kt) (strings_TrimSpace ky) [] [] = (a, None)"
    and b: "ParseValue p rt vt (zero vt) (strings_TrimSpace x) [] [] = (b, None)"
  shows "parseMap p rt (TMap kt vt) old v = (VMap (Some [(a, b)]), None)"
proof -
  let ?pk = "\<lambda>keyStr. ParseValue p rt kt (zero kt) keyStr [] []"
  let ?pv = "\<lambda>valStr. ParseValue p rt vt (zero vt) valStr [] []"
  have "parseMap p rt (TMap kt vt) old v = parsePairs ?pk ?pv (Kind kt) (Kind vt) [v] []"
    by (rule parseMap_one_piece [OF s])
  also have "\<dots> = parsePairs ?pk ?pv (Kind kt) (Kind vt) [ky @ '':'' @ x @ rest] []"
    by (simp only: v)
  also have "\<dots> =
     (case ?pk (strings_TrimSpace ky) of
        (a, Some e) \<Rightarrow> (VMap (Some []), Some (CanNotBeParsed (strings_TrimSpace ky) (Kind kt)))
      | (a, None) \<Rightarrow>
          (case ?pv (strings_TrimSpace x) of
             (b, Some e) \<Rightarrow> (VMap (Some []), Some (CanNotBeParsed (strings_TrimSpace x) (Kind vt)))
           | (b, None) \<Rightarrow> parsePairs ?pk ?pv (Kind kt) (Kind vt) [] (SetMapIndex [] a b)))"
    by (rule parsePairs_two_parts [OF k x r])
  also have "\<dots> = (VMap (Some [(a, b)]), None)"
    by (simp add: a b)
  finally show ?thesis .
qed


lemma TrimSpace_kv: "strings_TrimSpace ''PORT'' = ''PORT''" "strings_TrimSpace ''8080'' = ''8080''"
  by (simp_all add: strings_TrimSpace_def trimLeft.simps trimRight.simps leadingSpace_def
      trailingSpace_def spaceRunes_def suffix_def)


section \<open>The default of an annotation (claim C3)\<close>

lemma ReplaceAll_absent: "\<not> sublist old s \<Longrightarrow> strings_ReplaceAll s old new = s"
proof (induction s)
  case Nil
  then show ?case by simp
next
  case (Cons c cs)
  from Cons.prems have np: "\<not> prefix old (c # cs)" and ns: "\<not> sublist old cs"
    by (auto simp: sublist_Cons_right)
  with Cons.IH show ?case by simp
qed

lemma ReplaceAll_prefix:
  assumes "old \<noteq> []"
  shows "strings_ReplaceAll (old @ s) old new = new @ strings_ReplaceAll s old new"
proof -
  from assms obtain c cs where o: "old = c # cs" by (cases old) auto
  have "strings_ReplaceAll ((c # cs) @ s) (c # cs) new = new @ strings_ReplaceAll s (c # cs) new"
    by simp
  with o show ?thesis by simp
qed

lemma Join_Cons: "ys \<noteq> [] \<Longrightarrow> strings_Join (x # ys) sep = x @ sep @ strings_Join ys sep"
  by (cases ys) auto

lemma Join_splitOn: "strings_Join (splitOn [c] cur s) [c] = cur @ s"
proof (induction s arbitrary: cur)
  case Nil
  then show ?case by simp
next
  case (Cons x xs)
  show ?case
  proof (cases "x = c")
    case True
    then show ?thesis using Cons.IH [of "[]"] by (simp add: Join_Cons splitOn_nonempty)
  next
    case False
    then show ?thesis using Cons.IH [of "cur @ [x]"] by simp
  qed
qed

lemma Join_Split: "strings_Join (strings_Split s [c]) [c] = s"
  by (simp add: strings_Split_def Join_splitOn)

lemma takeWhile_dropWhile_comma:
  assumes "c \<in> set s"
  shows "s = takeWhile (\<lambda>y. y \<noteq> c) s @ [c] @ tl (dropWhile (\<lambda>y. y \<noteq> c) s)"
proof -
  from assms have "dropWhile (\<lambda>y. y \<noteq> c) s \<noteq> []" by simp
  moreover have "hd (dropWhile (\<lambda>y. y \<noteq> c) s) = c"
    using assms hd_dropWhile [of "\<lambda>y. y \<noteq> c" s] by auto
  ultimately have "dropWhile (\<lambda>y. y \<noteq> c) s = c # tl (dropWhile (\<lambda>y. y \<noteq> c) s)"
    by (cases "dropWhile (\<lambda>y. y \<noteq> c) s") auto
  then show ?thesis
    using takeWhile_dropWhile_id [of "\<lambda>y. y \<noteq> c" s] by simp
qed

lemma parseStructTags_default:
  assumes trimmed: "strings_TrimSpace (K @ '',default='' @ V) = K @ '',default='' @ V"
    and K: "CHR '','' \<notin> set K" and V: "CHR '','' \<in> set V"
  shows "parseStructTags (K @ '',default='' @ V) =
           (K, strings_ReplaceAll (takeWhile (\<lambda>c. c \<noteq> CHR '','') V) ''default='' []
               @ dropWhile (\<lambda>c. c \<noteq> CHR '','') V)"
proof -
  define V1 where "V1 = takeWhile (\<lambda>c. c \<noteq> CHR '','') V"
  define V2 where "V2 = tl (dropWhile (\<lambda>c. c \<noteq> CHR '','') V)"
  have dV: "dropWhile (\<lambda>c. c \<noteq> CHR '','') V = CHR '','' # V2"
    using takeWhile_dropWhile_comma [OF V] takeWhile_dropWhile_id [of "\<lambda>c. c \<noteq> CHR '',''" V]
    unfolding V2_def by (metis append_Cons append_Nil same_append_eq)
  let ?tag = "K @ '',default='' @ V"
  have tagform: "?tag = K @ CHR '','' # (''default='' @ V)" by simp
  have in1: "CHR '','' \<in> set ?tag" by simp
  have p1: "strings_Split ?tag '','' = K # strings_Split (''default='' @ V) '',''"
    using Split_present [OF in1] K by (simp add: takeWhile_until dropWhile_until)
  have in2: "CHR '','' \<in> set (''default='' @ V)" using V by simp
  have p2: "strings_Split (''default='' @ V) '','' = (''default='' @ V1) # strings_Split V2 '',''"
    using Split_present [OF in2] by (simp add: V1_def V2_def)
  obtain y ys where rest: "strings_Split V2 '','' = y # ys"
    using Split_nonempty [of V2 "CHR '',''"] by (cases "strings_Split V2 '',''") auto
  have parts: "strings_Split ?tag '','' = K # (''default='' @ V1) # y # ys"
    using p1 p2 rest by simp
  have r1: "strings_ReplaceAll (''default='' @ V1) ''default='' [] = strings_ReplaceAll V1 ''default='' []"
    using ReplaceAll_prefix [of "''default=''" V1 "[]"] by simp
  have j: "strings_Join (y # ys) '','' = V2"
    using Join_Split [of V2 "CHR '',''"] rest by simp
  have ne1: "?tag \<noteq> ''-''" using in1 by auto
  have ne2: "?tag \<noteq> []" by simp
  have "parseStructTags ?tag =
          (K, strings_ReplaceAll V1 ''default='' [] @ '','' @ V2)"
    unfolding parseStructTags_def trimmed Let_def parts
    using ne1 ne2 r1 j by (simp add: Join_Cons del: strings_ReplaceAll.simps)
  then show ?thesis using dV by (simp add: V1_def)
qed

text \<open>
  Claim C3, amended. Take an annotation \<^verbatim>\<open>KEY,default=V\<close> that has no white space
  around it, with no comma in \<^verbatim>\<open>KEY\<close> and at least one in \<^verbatim>\<open>V\<close>. The parser
  returns the key \<^verbatim>\<open>KEY\<close> and, as the default, \<^verbatim>\<open>V\<close> with every \<^verbatim>\<open>default=\<close> removed
  from its first comma-separated segment and all its commas and later segments kept.
  When that first segment does not contain \<^verbatim>\<open>default=\<close>, the default is \<^verbatim>\<open>V\<close> itself.
\<close>

theorem parseStructTags_comma_default:
  "strings_TrimSpace (K @ '',default='' @ V) = K @ '',default='' @ V
     \<and> CHR '','' \<notin> set K \<and> CHR '','' \<in> set V \<longrightarrow>
   parseStructTags (K @ '',default='' @ V) =
     (K, strings_ReplaceAll (takeWhile (\<lambda>c. c \<noteq> CHR '','') V) ''default='' []
           @ dropWhile (\<lambda>c. c \<noteq> CHR '','') V)
   \<and> (\<not> sublist ''default='' (takeWhile (\<lambda>c. c \<noteq> CHR '','') V) \<longrightarrow>
        parseStructTags (K @ '',default='' @ V) = (K, V))"
proof (intro impI conjI)
  assume a: "strings_TrimSpace (K @ '',default='' @ V) = K @ '',default='' @ V
     \<and> CHR '','' \<notin> set K \<and> CHR '','' \<in> set V"
  then show g: "parseStructTags (K @ '',default='' @ V) =
     (K, strings_ReplaceAll (takeWhile (\<lambda>c. c \<noteq> CHR '','') V) ''default='' []
           @ dropWhile (\<lambda>c. c \<noteq> CHR '','') V)"
    using parseStructTags_default by blast
  assume "\<not> sublist ''default='' (takeWhile (\<lambda>c. c \<noteq> CHR '','') V)"
  then have "strings_ReplaceAll (takeWhile (\<lambda>c. c \<noteq> CHR '','') V) ''default='' []
               = takeWhile (\<lambda>c. c \<noteq> CHR '','') V"
    by (rule ReplaceAll_absent)
  with g show "parseStructTags (K @ '',default='' @ V) = (K, V)" by simp
qed

theorem parseStructTags_comma_default_witness:
  "parseStructTags ''MAP,default=a:1,b:2'' = (''MAP'', ''a:1,b:2'')
   \<and> parseStructTags ''MAP1,default=200:OK, 304:redirect, 404:not found''
       = (''MAP1'', ''200:OK, 304:redirect, 404:not found'')"
proof -
  have t1: "strings_TrimSpace (''MAP'' @ '',default='' @ ''a:1,b:2'') = ''MAP'' @ '',default='' @ ''a:1,b:2''"
    by code_simp
  have n1: "\<not> sublist ''default='' (takeWhile (\<lambda>c. c \<noteq> CHR '','') ''a:1,b:2'')"
    by code_simp
  have t2: "strings_TrimSpace (''MAP1'' @ '',default='' @ ''200:OK, 304:redirect, 404:not found'')
             = ''MAP1'' @ '',default='' @ ''200:OK, 304:redirect, 404:not found''"
    by code_simp
  have n2: "\<not> sublist ''default='' (takeWhile (\<lambda>c. c \<noteq> CHR '','') ''200:OK, 304:redirect, 404:not found'')"
    by code_simp
  have 1: "parseStructTags ''MAP,default=a:1,b:2'' = (''MAP'', ''a:1,b:2'')"
    using parseStructTags_comma_default [of "''MAP''" "''a:1,b:2''"] t1 n1 by simp
  have 2: "parseStructTags ''MAP1,default=200:OK, 304:redirect, 404:not found''
       = (''MAP1'', ''200:OK, 304:redirect, 404:not found'')"
    using parseStructTags_comma_default [of "''MAP1''" "''200:OK, 304:redirect, 404:not found''"] t2 n2
    by simp
  from 1 2 show ?thesis by simp
qed

text \<open>
  The claim as it stands (the default is exactly \<^verbatim>\<open>V\<close>) fails when the first segment
  of \<^verbatim>\<open>V\<close> contains the marker: \<^verbatim>\<open>strings.ReplaceAll\<close> removes it there too.
\<close>

theorem parseStructTags_marker_counterexample:
  "parseStructTags ''OPTS,default=mode:default=on,level:2'' = (''OPTS'', ''mode:on,level:2'')
   \<and> parseStructTags ''OPTS,default=mode:default=on,level:2'' \<noteq> (''OPTS'', ''mode:default=on,level:2'')"
  by code_simp

section \<open>The skip marker (claim C8)\<close>




section \<open>Integer fields (claim C5)\<close>

lemma digitVal_le: "isDigit c \<Longrightarrow> digitVal c \<le> 9"
  by (auto simp: isDigit_def digitVal_def)

lemma foldl_digits_ge: "n \<le> foldl (\<lambda>n c. 10 * n + digitVal c) n cs"
proof (induction cs arbitrary: n)
  case Nil
  then show ?case by simp
next
  case (Cons c cs)
  have "n \<le> 10 * n + digitVal c" by simp
  also have "\<dots> \<le> foldl (\<lambda>n c. 10 * n + digitVal c) (10 * n + digitVal c) cs" by (rule Cons.IH)
  finally show ?case by simp
qed

lemma parseUintLoop_step:
  assumes d: "isDigit c" and n: "n < 1844674407370955162"
  shows "parseUintLoop s0 n (c # cs) =
           (if 10 * n + digitVal c < 18446744073709551616
            then parseUintLoop s0 (10 * n + digitVal c) cs
            else (maxUint64, Some (NumError ''ParseUint'' s0 ErrRange)))"
proof -
  have dv: "digitVal c \<le> 9" using d by (rule digitVal_le)
  have m: "(n * 10) mod 2 ^ 64 = n * 10" using n by simp
  show ?thesis
  proof (cases "10 * n + digitVal c < 18446744073709551616")
    case True
    then have "(n * 10 + digitVal c) mod 18446744073709551616 = n * 10 + digitVal c" by simp
    with True d n m show ?thesis
      by (simp add: maxUint64_def Let_def mult.commute)
  next
    case False
    then have ge: "18446744073709551616 \<le> n * 10 + digitVal c" by simp
    have lt: "n * 10 + digitVal c < 2 * 18446744073709551616" using n dv by simp
    have "(n * 10 + digitVal c) mod 18446744073709551616 = n * 10 + digitVal c - 18446744073709551616"
      using ge lt by (simp add: mod_if)
    moreover have "n * 10 + digitVal c - 18446744073709551616 < n * 10" using ge dv n by simp
    ultimately show ?thesis using False d n m
      by (simp add: maxUint64_def Let_def mult.commute)
  qed
qed

lemma parseUintLoop_cutoff:
  assumes d: "isDigit c" and n: "1844674407370955162 \<le> n"
  shows "parseUintLoop s0 n (c # cs) = (maxUint64, Some (NumError ''ParseUint'' s0 ErrRange))"
  using assms by (simp add: maxUint64_def)

lemma parseUintLoop_digits:
  assumes "list_all isDigit cs" and "n < 18446744073709551616"
  shows "parseUintLoop s0 n cs =
           (if foldl (\<lambda>n c. 10 * n + digitVal c) n cs < 18446744073709551616
            then (foldl (\<lambda>n c. 10 * n + digitVal c) n cs, None)
            else (maxUint64, Some (NumError ''ParseUint'' s0 ErrRange)))"
  using assms
proof (induction cs arbitrary: n)
  case Nil
  then show ?case by simp
next
  case (Cons c cs)
  then have d: "isDigit c" and ds: "list_all isDigit cs" by simp_all
  let ?f = "\<lambda>n c. 10 * n + digitVal c"
  have ge: "10 * n + digitVal c \<le> foldl ?f (10 * n + digitVal c) cs" by (rule foldl_digits_ge)
  show ?case
  proof (cases "n < 1844674407370955162")
    case True
    show ?thesis
    proof (cases "10 * n + digitVal c < 18446744073709551616")
      case t: True
      with Cons.IH [OF ds t] parseUintLoop_step [OF d True] show ?thesis by simp
    next
      case False
      with ge have "\<not> foldl ?f (10 * n + digitVal c) cs < 18446744073709551616" by simp
      with False parseUintLoop_step [OF d True] show ?thesis by simp
    qed
  next
    case False
    then have c: "1844674407370955162 \<le> n" by simp
    then have "18446744073709551616 \<le> 10 * n + digitVal c" by simp
    with ge have "\<not> foldl ?f (10 * n + digitVal c) cs < 18446744073709551616" by simp
    with parseUintLoop_cutoff [OF d c] show ?thesis by simp
  qed
qed

lemma parseUintLoop_not_digits:
  assumes "\<not> list_all isDigit cs" and "n < 18446744073709551616"
  shows "parseUintLoop s0 n cs = (0, Some (NumError ''ParseUint'' s0 ErrSyntax))
       \<or> parseUintLoop s0 n cs = (maxUint64, Some (NumError ''ParseUint'' s0 ErrRange))"
  using assms
proof (induction cs arbitrary: n)
  case Nil
  then show ?case by simp
next
  case (Cons c cs)
  show ?case
  proof (cases "isDigit c")
    case False
    then show ?thesis by simp
  next
    case d: True
    with Cons.prems have nd: "\<not> list_all isDigit cs" by simp
    show ?thesis
    proof (cases "n < 1844674407370955162")
      case True
      show ?thesis
      proof (cases "10 * n + digitVal c < 18446744073709551616")
        case t: True
        with Cons.IH [OF nd t] parseUintLoop_step [OF d True] show ?thesis by simp
      next
        case False
        with parseUintLoop_step [OF d True] show ?thesis by simp
      qed
    next
      case False
      then have "1844674407370955162 \<le> n" by simp
      from parseUintLoop_cutoff [OF d this] show ?thesis by simp
    qed
  qed
qed

lemma ParseUint_numeral:
  assumes "isNumeral s"
  shows "strconv_ParseUint s =
           (if decimalValue s < 18446744073709551616 then (decimalValue s, None)
            else (maxUint64, Some (NumError ''ParseUint'' s ErrRange)))"
  using assms parseUintLoop_digits [of s 0 s]
  by (simp add: isNumeral_def strconv_ParseUint_def decimalValue_def)

lemma ParseUint_not_numeral:
  assumes "\<not> isNumeral s"
  shows "strconv_ParseUint s = (0, Some (NumError ''ParseUint'' s ErrSyntax))
       \<or> strconv_ParseUint s = (maxUint64, Some (NumError ''ParseUint'' s ErrRange))"
proof (cases "s = []")
  case True
  then show ?thesis by (simp add: strconv_ParseUint_def)
next
  case False
  with assms have "\<not> list_all isDigit s" by (simp add: isNumeral_def)
  from parseUintLoop_not_digits [OF this, of 0 s] False show ?thesis
    by (simp add: strconv_ParseUint_def)
qed

lemma ParseInt_unfold:
  "strconv_ParseInt (c # cs) =
     (let neg = (c = CHR ''-'');
          s = (if c = CHR ''+'' \<or> c = CHR ''-'' then cs else c # cs)
      in case strconv_ParseUint s of
           (un, Some (NumError f n ErrSyntax)) \<Rightarrow> (0, Some (NumError ''ParseInt'' (c # cs) ErrSyntax))
         | (un, r) \<Rightarrow>
             if \<not> neg \<and> un \<ge> 2 ^ 63 then (2 ^ 63 - 1, Some (NumError ''ParseInt'' (c # cs) ErrRange))
             else if neg \<and> un > 2 ^ 63 then (- (2 ^ 63), Some (NumError ''ParseInt'' (c # cs) ErrRange))
             else (if neg then - int un else int un, None))"
  unfolding strconv_ParseInt_def by (simp only: list.sel list.simps if_False)

lemma ParseInt_ok:
  assumes "strconv_ParseUint (if c = CHR ''+'' \<or> c = CHR ''-'' then cs else c # cs) = (u, None)"
  shows "strconv_ParseInt (c # cs) =
           (if c \<noteq> CHR ''-'' \<and> u \<ge> 2 ^ 63 then (2 ^ 63 - 1, Some (NumError ''ParseInt'' (c # cs) ErrRange))
            else if c = CHR ''-'' \<and> u > 2 ^ 63 then (- (2 ^ 63), Some (NumError ''ParseInt'' (c # cs) ErrRange))
            else (if c = CHR ''-'' then - int u else int u, None))"
  unfolding ParseInt_unfold Let_def assms by simp

lemma ParseInt_syntax:
  assumes "strconv_ParseUint (if c = CHR ''+'' \<or> c = CHR ''-'' then cs else c # cs)
             = (u, Some (NumError f nm ErrSyntax))"
  shows "strconv_ParseInt (c # cs) = (0, Some (NumError ''ParseInt'' (c # cs) ErrSyntax))"
  unfolding ParseInt_unfold Let_def assms by simp

lemma ParseInt_range:
  assumes "strconv_ParseUint (if c = CHR ''+'' \<or> c = CHR ''-'' then cs else c # cs)
             = (maxUint64, Some (NumError f nm ErrRange))"
  shows "strconv_ParseInt (c # cs) =
           (if c = CHR ''-'' then - (2 ^ 63) else 2 ^ 63 - 1, Some (NumError ''ParseInt'' (c # cs) ErrRange))"
  unfolding ParseInt_unfold Let_def assms by (simp add: maxUint64_def)

lemma ParseInt_not_numeral:
  assumes "signedNumeral s = None"
  shows "snd (strconv_ParseInt s) \<noteq> None"
proof (cases s)
  case Nil
  then show ?thesis by (simp add: strconv_ParseInt_def)
next
  case (Cons c cs)
  let ?s = "if c = CHR ''+'' \<or> c = CHR ''-'' then cs else c # cs"
  from assms Cons have "\<not> isNumeral ?s"
    by (auto simp: signedNumeral_def split: if_splits)
  from ParseUint_not_numeral [OF this] show ?thesis
  proof
    assume "strconv_ParseUint ?s = (0, Some (NumError ''ParseUint'' ?s ErrSyntax))"
    from ParseInt_syntax [OF this] Cons show ?thesis by simp
  next
    assume "strconv_ParseUint ?s = (maxUint64, Some (NumError ''ParseUint'' ?s ErrRange))"
    from ParseInt_range [OF this] Cons show ?thesis by simp
  qed
qed

lemma ParseInt_of_numeral:
  assumes num: "isNumeral ds" and s: "ds = (if c = CHR ''+'' \<or> c = CHR ''-'' then cs else c # cs)"
    and n: "n = (if c = CHR ''-'' then - int (decimalValue ds) else int (decimalValue ds))"
  shows "strconv_ParseInt (c # cs) =
           (if - (2 ^ 63) \<le> n \<and> n < 2 ^ 63 then (n, None)
            else (if n < 0 then - (2 ^ 63) else 2 ^ 63 - 1, Some (NumError ''ParseInt'' (c # cs) ErrRange)))"
proof (cases "decimalValue ds < 18446744073709551616")
  case True
  with ParseUint_numeral [OF num] have "strconv_ParseUint ds = (decimalValue ds, None)" by simp
  then have u: "strconv_ParseUint (if c = CHR ''+'' \<or> c = CHR ''-'' then cs else c # cs) = (decimalValue ds, None)"
    using s by simp
  show ?thesis
  proof (cases "c = CHR ''-''")
    case m: True
    then show ?thesis using ParseInt_ok [OF u] n by auto
  next
    case False
    then show ?thesis using ParseInt_ok [OF u] n by auto
  qed
next
  case False
  with ParseUint_numeral [OF num]
  have "strconv_ParseUint ds = (maxUint64, Some (NumError ''ParseUint'' ds ErrRange))" by simp
  then have u: "strconv_ParseUint (if c = CHR ''+'' \<or> c = CHR ''-'' then cs else c # cs)
                 = (maxUint64, Some (NumError ''ParseUint'' ds ErrRange))"
    using s by simp
  show ?thesis
  proof (cases "c = CHR ''-''")
    case m: True
    then show ?thesis using ParseInt_range [OF u] n False by auto
  next
    case False
    then show ?thesis using ParseInt_range [OF u] n \<open>\<not> decimalValue ds < 18446744073709551616\<close> by auto
  qed
qed

lemma ParseInt_numeral:
  assumes "signedNumeral s = Some n"
  shows "strconv_ParseInt s =
           (if - (2 ^ 63) \<le> n \<and> n < 2 ^ 63 then (n, None)
            else (if n < 0 then - (2 ^ 63) else 2 ^ 63 - 1, Some (NumError ''ParseInt'' s ErrRange)))"
proof (cases s)
  case Nil
  with assms show ?thesis by (simp add: signedNumeral_def)
next
  case (Cons c cs)
  let ?ds = "if c = CHR ''+'' \<or> c = CHR ''-'' then cs else c # cs"
  from assms Cons have num: "isNumeral ?ds"
    by (auto simp: signedNumeral_def split: if_splits)
  from assms Cons have n: "n = (if c = CHR ''-'' then - int (decimalValue ?ds) else int (decimalValue ?ds))"
    by (auto simp: signedNumeral_def split: if_splits)
  from ParseInt_of_numeral [OF num refl n] Cons show ?thesis by simp
qed

lemma SetInt_fits:
  assumes "- (2 ^ (intBits k - 1)) \<le> n" and "n < 2 ^ (intBits k - 1)"
  shows "SetInt k n = n"
  using assms by (cases k) (simp_all add: SetInt_def intBits_def)

lemma SetUint_fits: "m < 2 ^ uintBits u \<Longrightarrow> SetUint u m = m"
  by (simp add: SetUint_def)

lemma ParseValue_TInt:
  "ParseValue p rt (TInt k) v s pfx key =
     (case signedNumeral s of
        None \<Rightarrow> (v, snd (strconv_ParseInt s))
      | Some n \<Rightarrow>
          if - (2 ^ 63) \<le> n \<and> n < 2 ^ 63 then (VInt (SetInt k n), None)
          else (v, Some (NumError ''ParseInt'' s ErrRange)))"
proof (cases "signedNumeral s")
  case None
  from ParseInt_not_numeral [OF None] obtain a e where "strconv_ParseInt s = (a, Some e)"
    by (cases "strconv_ParseInt s") auto
  with None show ?thesis by (simp add: ParseValue.simps)
next
  case (Some n)
  from ParseInt_numeral [OF Some] Some show ?thesis by (simp add: ParseValue.simps)
qed

lemma ParseValue_TUint:
  "ParseValue p rt (TUint u) v s pfx key =
     (if isNumeral s
      then (if decimalValue s < 2 ^ 64 then (VUint (SetUint u (decimalValue s)), None)
            else (v, Some (NumError ''ParseUint'' s ErrRange)))
      else (v, snd (strconv_ParseUint s)))"
proof (cases "isNumeral s")
  case True
  from ParseUint_numeral [OF True] True show ?thesis by (simp add: ParseValue.simps)
next
  case False
  from ParseUint_not_numeral [OF False] False show ?thesis by (auto simp: ParseValue.simps)
qed

lemma ParseUint_not_numeral_error: "\<not> isNumeral s \<Longrightarrow> snd (strconv_ParseUint s) \<noteq> None"
  using ParseUint_not_numeral [of s] by auto

text \<open>
  Claim C5, amended. For a field of any signed integer kind \<^verbatim>\<open>ParseValue\<close> reads the
  string as a base-10 numeral of 64 bits, whatever the width of the field: a string that
  is not a numeral (an optional sign, then one digit or more) gives an error and leaves
  the field as it was, a numeral outside the 64-bit range gives the range error, and
  any other numeral is accepted and stored cut down to the width of the field, so
  exactly when it fits that width. The same holds for the unsigned kinds, with no sign
  and the range of \<^verbatim>\<open>uint64\<close>.
\<close>

theorem integer_fields_parse_64_bit:
  "ParseValue p rt (TInt k) v s pfx key =
     (case signedNumeral s of
        None \<Rightarrow> (v, snd (strconv_ParseInt s))
      | Some n \<Rightarrow>
          if - (2 ^ 63) \<le> n \<and> n < 2 ^ 63 then (VInt (SetInt k n), None)
          else (v, Some (NumError ''ParseInt'' s ErrRange)))
   \<and> (signedNumeral s = None \<longrightarrow> snd (strconv_ParseInt s) \<noteq> None)
   \<and> (- (2 ^ (intBits k - 1)) \<le> i \<and> i < 2 ^ (intBits k - 1) \<longrightarrow> SetInt k i = i)
   \<and> ParseValue p rt (TUint u) v s pfx key =
       (if isNumeral s
        then (if decimalValue s < 2 ^ 64 then (VUint (SetUint u (decimalValue s)), None)
              else (v, Some (NumError ''ParseUint'' s ErrRange)))
        else (v, snd (strconv_ParseUint s)))
   \<and> (\<not> isNumeral s \<longrightarrow> snd (strconv_ParseUint s) \<noteq> None)
   \<and> (m < 2 ^ uintBits u \<longrightarrow> SetUint u m = m)"
  using ParseValue_TInt ParseInt_not_numeral SetInt_fits ParseValue_TUint ParseUint_not_numeral_error
    SetUint_fits by blast

lemma numeral_examples:
  "signedNumeral ''-128'' = Some (- 128)"
  "signedNumeral ''300'' = Some 300"
  "signedNumeral ''12x'' = None"
  "signedNumeral ''9223372036854775808'' = Some 9223372036854775808"
  "isNumeral ''65535''" "decimalValue ''65535'' = 65535"
  "isNumeral ''70000''" "decimalValue ''70000'' = 70000"
  by (simp_all add: signedNumeral_def isNumeral_def isDigit_def decimalValue_def digitVal_def)

theorem integer_fields_parse_64_bit_witness:
  "\<forall>p rt. ParseValue p rt (TInt GoInt8) (VInt 0) ''-128'' [] [] = (VInt (- 128), None)
        \<and> (\<exists>e. ParseValue p rt (TInt GoInt32) (VInt 5) ''12x'' [] [] = (VInt 5, Some e))
        \<and> ParseValue p rt (TInt GoInt64) (VInt 0) ''9223372036854775808'' [] []
            = (VInt 0, Some (NumError ''ParseInt'' ''9223372036854775808'' ErrRange))
        \<and> ParseValue p rt (TUint GoUint16) (VUint 0) ''65535'' [] [] = (VUint 65535, None)
        \<and> ParseValue p rt (TUint GoUint16) (VUint 0) ''70000'' [] [] = (VUint 4464, None)"
proof (intro allI conjI)
  fix p :: Parser and rt :: golib
  show "ParseValue p rt (TInt GoInt8) (VInt 0) ''-128'' [] [] = (VInt (- 128), None)"
    using integer_fields_parse_64_bit [of p rt GoInt8 "VInt 0" "''-128''" "[]" "[]" "- 128"]
    by (simp add: numeral_examples intBits_def)
  show "\<exists>e. ParseValue p rt (TInt GoInt32) (VInt 5) ''12x'' [] [] = (VInt 5, Some e)"
    using integer_fields_parse_64_bit [of p rt GoInt32 "VInt 5" "''12x''" "[]" "[]"]
    by (auto simp: numeral_examples)
  show "ParseValue p rt (TInt GoInt64) (VInt 0) ''9223372036854775808'' [] []
            = (VInt 0, Some (NumError ''ParseInt'' ''9223372036854775808'' ErrRange))"
    using integer_fields_parse_64_bit [of p rt GoInt64 "VInt 0" "''9223372036854775808''" "[]" "[]"]
    by (simp add: numeral_examples)
  show "ParseValue p rt (TUint GoUint16) (VUint 0) ''65535'' [] [] = (VUint 65535, None)"
    using integer_fields_parse_64_bit [of p rt _ "VUint 0" "''65535''" "[]" "[]" _ GoUint16 65535]
    by (simp add: numeral_examples uintBits_def)
  show "ParseValue p rt (TUint GoUint16) (VUint 0) ''70000'' [] [] = (VUint 4464, None)"
    using integer_fields_parse_64_bit [of p rt _ "VUint 0" "''70000''" "[]" "[]" _ GoUint16]
    by (simp add: numeral_examples uintBits_def SetUint_def)
qed

text \<open>
  The claim as it stands (the range of an accepted numeral is the width of the field)
  fails on an \<^verbatim>\<open>int8\<close> field and the string \<^verbatim>\<open>300\<close>: it is accepted, and 44 is stored.
\<close>

theorem int8_field_accepts_300_counterexample:
  "\<forall>p rt. ParseValue p rt (TInt GoInt8) (VInt 0) ''300'' [] [] = (VInt 44, None)"
  by (simp add: ParseValue_TInt numeral_examples SetInt_def intBits_def)

section \<open>The first error (claim C7)\<close>

lemma ParseStructFields_append:
  assumes "length vs1 = length fs1"
  shows "ParseStructFields p rt pfx (fs1 @ fs2) (vs1 @ vs2) =
           (case ParseStructFields p rt pfx fs1 vs1 of
              (vs1', Some e) \<Rightarrow> (vs1' @ vs2, Some e)
            | (vs1', None) \<Rightarrow>
                (case ParseStructFields p rt pfx fs2 vs2 of (vs2', r) \<Rightarrow> (vs1' @ vs2', r)))"
  using assms
proof (induction vs1 fs1 rule: list_induct2)
  case Nil
  then show ?case by (simp add: ParseStructFields.simps split: prod.splits)
next
  case (Cons v vs f fs)
  obtain n t ty where f: "f = Field n t ty" by (cases f)
  obtain a r where rest: "ParseStructFields p rt pfx fs vs = (a, r)"
    by (cases "ParseStructFields p rt pfx fs vs")
  obtain b q where rest2: "ParseStructFields p rt pfx fs2 vs2 = (b, q)"
    by (cases "ParseStructFields p rt pfx fs2 vs2")
  from Cons.IH rest rest2
  have IH: "ParseStructFields p rt pfx (fs @ fs2) (vs @ vs2) =
              (case r of Some e \<Rightarrow> (a @ vs2, Some e) | None \<Rightarrow> (a @ b, q))"
    by (simp split: option.splits)
  show ?case
    unfolding f
    by (simp add: ParseStructFields.simps consResult_def Let_def IH rest rest2
        split: prod.splits option.splits)
qed

lemma ParseStructFields_failing_field:
  assumes ex: "IsExported (Field n t ty)"
    and key: "key = composeKey pfx (fst (parseStructTags (tagValOf (Field n t ty))))"
    and str: "strValues = Get p (BuildKey p key) (snd (parseStructTags (tagValOf (Field n t ty))))"
    and ns: "\<not> (strValues = [] \<and> Kind ty \<noteq> KStruct)"
    and err: "ParseValue p rt ty v strValues pfx key = (v', Some e)"
  shows "ParseStructFields p rt pfx (Field n t ty # fs2) (v # vs2) = (v' # vs2, Some e)"
proof -
  let ?str = "Get p (BuildKey p (composeKey pfx (fst (parseStructTags (tagValOf (Field n t ty))))))
                (snd (parseStructTags (tagValOf (Field n t ty))))"
  from ns key str have guard: "\<not> (?str = [] \<and> Kind ty \<noteq> KStruct)" by simp
  from err key str
  have pv: "ParseValue p rt ty v ?str pfx (composeKey pfx (fst (parseStructTags (tagValOf (Field n t ty)))))
              = (v', Some e)" by simp
  show ?thesis
    unfolding ParseStructFields.simps Let_def using ex guard pv by (simp del: de_Morgan_conj)
qed

text \<open>
  Claim C7. When the fields before some field are walked without error, and
  \<^verbatim>\<open>ParseValue\<close> returns an error on that field, the loop of \<^verbatim>\<open>ParseStruct\<close> returns
  that very error: the fields before it hold what the walk gave them, the field itself
  holds what \<^verbatim>\<open>ParseValue\<close> left in it, and the fields after it are as they were,
  whatever their types and whatever the value source holds for them. \<^verbatim>\<open>ParseStruct\<close>
  returns the same, and so does \<^verbatim>\<open>ParseValue\<close> on a nested struct, unchanged.
\<close>

theorem first_error_stops_walk:
  "length vs1 = length fs1
   \<and> ParseStructFields p rt pfx fs1 vs1 = (vs1', None)
   \<and> IsExported (Field n t ty)
   \<and> key = composeKey pfx (fst (parseStructTags (tagValOf (Field n t ty))))
   \<and> strValues = Get p (BuildKey p key) (snd (parseStructTags (tagValOf (Field n t ty))))
   \<and> \<not> (strValues = [] \<and> Kind ty \<noteq> KStruct)
   \<and> ParseValue p rt ty v strValues pfx key = (v', Some e) \<longrightarrow>
   ParseStructFields p rt pfx (fs1 @ Field n t ty # fs2) (vs1 @ v # vs2) = (vs1' @ v' # vs2, Some e)
   \<and> ParseStruct p rt (PointerTo (TStruct impl (fs1 @ Field n t ty # fs2)) (VStruct (vs1 @ v # vs2))) pfx
       = Returns (PointerTo (TStruct impl (fs1 @ Field n t ty # fs2)) (VStruct (vs1' @ v' # vs2)), Some e)
   \<and> ParseValue p rt (TStruct None (fs1 @ Field n t ty # fs2)) (VStruct (vs1 @ v # vs2)) s pfx' pfx
       = (VStruct (vs1' @ v' # vs2), Some e)"
proof (intro impI)
  assume a: "length vs1 = length fs1
   \<and> ParseStructFields p rt pfx fs1 vs1 = (vs1', None)
   \<and> IsExported (Field n t ty)
   \<and> key = composeKey pfx (fst (parseStructTags (tagValOf (Field n t ty))))
   \<and> strValues = Get p (BuildKey p key) (snd (parseStructTags (tagValOf (Field n t ty))))
   \<and> \<not> (strValues = [] \<and> Kind ty \<noteq> KStruct)
   \<and> ParseValue p rt ty v strValues pfx key = (v', Some e)"
  then have len: "length vs1 = length fs1" and before: "ParseStructFields p rt pfx fs1 vs1 = (vs1', None)"
    by simp_all
  from a have here: "ParseStructFields p rt pfx (Field n t ty # fs2) (v # vs2) = (v' # vs2, Some e)"
    using ParseStructFields_failing_field [of n t ty key pfx strValues p rt v v' e fs2 vs2] by blast
  have walk: "ParseStructFields p rt pfx (fs1 @ Field n t ty # fs2) (vs1 @ v # vs2) = (vs1' @ v' # vs2, Some e)"
    using ParseStructFields_append [OF len, of p rt pfx "Field n t ty # fs2" "v # vs2"] before here
    by simp
  have top: "ParseStruct p rt (PointerTo (TStruct impl (fs1 @ Field n t ty # fs2)) (VStruct (vs1 @ v # vs2))) pfx
       = Returns (PointerTo (TStruct impl (fs1 @ Field n t ty # fs2)) (VStruct (vs1' @ v' # vs2)), Some e)"
    by (simp add: ParseStruct_def walk)
  have nested: "ParseValue p rt (TStruct None (fs1 @ Field n t ty # fs2)) (VStruct (vs1 @ v # vs2)) s pfx' pfx
       = (VStruct (vs1' @ v' # vs2), Some e)"
    by (simp add: ParseValue.simps walk)
  from walk top nested
  show "ParseStructFields p rt pfx (fs1 @ Field n t ty # fs2) (vs1 @ v # vs2) = (vs1' @ v' # vs2, Some e)
   \<and> ParseStruct p rt (PointerTo (TStruct impl (fs1 @ Field n t ty # fs2)) (VStruct (vs1 @ v # vs2))) pfx
       = Returns (PointerTo (TStruct impl (fs1 @ Field n t ty # fs2)) (VStruct (vs1' @ v' # vs2)), Some e)
   \<and> ParseValue p rt (TStruct None (fs1 @ Field n t ty # fs2)) (VStruct (vs1 @ v # vs2)) s pfx' pfx
       = (VStruct (vs1' @ v' # vs2), Some e)"
    by blast
qed

lemma bad_is_no_number:
  "strconv_ParseInt ''bad'' = (0, Some (NumError ''ParseInt'' ''bad'' ErrSyntax))"
  by (simp add: strconv_ParseInt_def strconv_ParseUint_def isDigit_def)

theorem first_error_stops_walk_witness:
  "\<forall>rt. ParseStruct (NewParser [''A'' \<mapsto> ''x'', ''B'' \<mapsto> ''bad'', ''C'' \<mapsto> ''y''] None None) rt
          (PointerTo (TStruct None [Field ''A'' (Some ''A'') TString, Field ''B'' (Some ''B'') (TInt GoInt),
                                    Field ''C'' (Some ''C'') TString])
             (VStruct [VString [], VInt 0, VString []])) []
        = Returns (PointerTo (TStruct None [Field ''A'' (Some ''A'') TString, Field ''B'' (Some ''B'') (TInt GoInt),
                                    Field ''C'' (Some ''C'') TString])
             (VStruct [VString ''x'', VInt 0, VString []]),
           Some (NumError ''ParseInt'' ''bad'' ErrSyntax))"
proof
  fix rt :: golib
  let ?p = "NewParser [''A'' \<mapsto> ''x'', ''B'' \<mapsto> ''bad'', ''C'' \<mapsto> ''y''] None None"
  have k: "DefaultKeyFunc ''A'' = ''A''" "DefaultKeyFunc ''B'' = ''B''" by code_simp+
  have t: "parseStructTags ''A'' = (''A'', [])" "parseStructTags ''B'' = (''B'', [])" by code_simp+
  have ex: "IsExported (Field ''A'' (Some ''A'') TString)" "IsExported (Field ''B'' (Some ''B'') (TInt GoInt))"
    by (simp_all add: IsExported_def isUpper_def)
  have before: "ParseStructFields ?p rt [] [Field ''A'' (Some ''A'') TString] [VString []] = ([VString ''x''], None)"
    by (simp add: ParseStructFields.simps ParseValue.simps ex tagValOf_def t composeKey_def NewParser_def k
        DefaultGetFunc_def os_Getenv_def consResult_def Let_def)
  have g: "Get ?p (BuildKey ?p ''B'') [] = ''bad''"
    by (simp add: NewParser_def k DefaultGetFunc_def os_Getenv_def)
  have pv: "ParseValue ?p rt (TInt GoInt) (VInt 0) ''bad'' [] ''B'' = (VInt 0, Some (NumError ''ParseInt'' ''bad'' ErrSyntax))"
    by (simp add: ParseValue.simps bad_is_no_number)
  show "ParseStruct ?p rt
          (PointerTo (TStruct None [Field ''A'' (Some ''A'') TString, Field ''B'' (Some ''B'') (TInt GoInt),
                                    Field ''C'' (Some ''C'') TString])
             (VStruct [VString [], VInt 0, VString []])) []
        = Returns (PointerTo (TStruct None [Field ''A'' (Some ''A'') TString, Field ''B'' (Some ''B'') (TInt GoInt),
                                    Field ''C'' (Some ''C'') TString])
             (VStruct [VString ''x'', VInt 0, VString []]),
           Some (NumError ''ParseInt'' ''bad'' ErrSyntax))"
    using first_error_stops_walk [where ?vs1.0 = "[VString []]" and ?fs1.0 = "[Field ''A'' (Some ''A'') TString]"
        and p = ?p and rt = rt and pfx = "[]" and ?vs1' = "[VString ''x'']" and n = "''B''" and t = "Some ''B''"
        and ty = "TInt GoInt" and key = "''B''" and strValues = "''bad''" and v = "VInt 0" and v' = "VInt 0"
        and e = "NumError ''ParseInt'' ''bad'' ErrSyntax" and ?fs2.0 = "[Field ''C'' (Some ''C'') TString]"
        and ?vs2.0 = "[VString []]" and impl = None]
      before ex g pv
    by (simp add: tagValOf_def t composeKey_def)
qed

section \<open>Composed keys (claim C1)\<close>

lemma composeKey_twice:
  "P \<noteq> [] \<Longrightarrow> composeKey (composeKey P S) F = P @ ''.'' @ S @ ''.'' @ F"
  by (simp add: composeKey_def)

lemma composeKey_assoc:
  "S \<noteq> [] \<Longrightarrow> composeKey (composeKey P S) F = composeKey P (composeKey S F)"
  by (simp add: composeKey_def)

lemma composeKey_path:
  "P \<noteq> [] \<Longrightarrow> foldl composeKey P ks = P @ concat (map (\<lambda>k. ''.'' @ k) ks)"
proof (induction ks arbitrary: P)
  case Nil
  then show ?case by simp
next
  case (Cons k ks)
  have "composeKey P k \<noteq> []" using Cons.prems by (simp add: composeKey_def)
  from Cons.IH [OF this] Cons.prems show ?case by (simp add: composeKey_def)
qed

lemma Kind_nestedStruct: "Kind (nestedStruct tgs (TStruct impl fs)) = KStruct"
  by (cases tgs) simp_all

lemma leaf_lookup:
  assumes "parseStructTags tF = (kF, dF)"
  shows "ParseValue p rt (TStruct None [Field ''F'' (Some tF) TString]) (VStruct [VString old]) s pfx key =
           (VStruct [VString (if Get p (BuildKey p (composeKey key kF)) dF = [] then old
                              else Get p (BuildKey p (composeKey key kF)) dF)], None)"
  using assms
  by (simp add: ParseValue.simps ParseStructFields.simps IsExported_def isUpper_def tagValOf_def
      consResult_def Let_def)

lemma nested_lookup:
  assumes "parseStructTags tF = (kF, dF)"
  shows "ParseValue p rt (nestedStruct tgs (TStruct None [Field ''F'' (Some tF) TString]))
           (nestedValue (length tgs) (VStruct [VString old])) s pfx key =
         (nestedValue (length tgs)
            (VStruct [VString
               (if Get p (BuildKey p (composeKey (foldl composeKey key (map (\<lambda>tg. fst (parseStructTags tg)) tgs)) kF)) dF = []
                then old
                else Get p (BuildKey p (composeKey (foldl composeKey key (map (\<lambda>tg. fst (parseStructTags tg)) tgs)) kF)) dF)]),
          None)"
proof (induction tgs arbitrary: s pfx key)
  case Nil
  show ?case using leaf_lookup [OF assms] by simp
next
  case (Cons tg tgs)
  show ?case
    by (simp add: ParseValue.simps ParseStructFields.simps IsExported_def isUpper_def tagValOf_def
        consResult_def Let_def Kind_nestedStruct Cons.IH)
qed

text \<open>
  Claim C1. A key is composed with its prefix by a dot, and the prefix is left out when
  it is empty; under a root prefix \<open>P\<close> the key of a field \<open>F\<close> inside a struct field
  \<open>S\<close> is \<open>P.S.F\<close>, the composition is associative (for a struct field with a
  key), and along a path of any length it is the prefix and the keys joined by dots.
  The loop of \<^verbatim>\<open>ParseStruct\<close> applies \<open>BuildKey\<close> to the composed key in the call of
  \<open>Get\<close> and nowhere else; what \<^verbatim>\<open>ParseValue\<close> receives, and hands down as the new
  prefix to the nested \<^verbatim>\<open>ParseStruct\<close> or to \<^verbatim>\<open>ParseEnv\<close>, is the composed key itself. So
  at the bottom of a chain of struct fields of any depth, a string field is set to what
  \<open>Get\<close> returns for the transform, applied once, of the whole dotted path (and left as it
  was when that is empty).
\<close>

theorem composed_key_lookup:
  "composeKey pfx k = (if pfx = [] then k else pfx @ ''.'' @ k)
   \<and> (P \<noteq> [] \<longrightarrow>
        composeKey (composeKey P S) F = P @ ''.'' @ S @ ''.'' @ F
        \<and> foldl composeKey P ks = P @ concat (map (\<lambda>k. ''.'' @ k) ks))
   \<and> (S \<noteq> [] \<longrightarrow> composeKey (composeKey P S) F = composeKey P (composeKey S F))
   \<and> (IsExported (Field n t ty) \<longrightarrow>
        ParseStructFields p rt pfx (Field n t ty # fs) (v # vs) =
          (let key = composeKey pfx (fst (parseStructTags (tagValOf (Field n t ty))));
               strValues = Get p (BuildKey p key) (snd (parseStructTags (tagValOf (Field n t ty))))
           in if strValues = [] \<and> Kind ty \<noteq> KStruct
              then consResult v (ParseStructFields p rt pfx fs vs)
              else
                (case ParseValue p rt ty v strValues pfx key of
                   (v', Some e) \<Rightarrow> (v' # vs, Some e)
                 | (v', None) \<Rightarrow> consResult v' (ParseStructFields p rt pfx fs vs))))
   \<and> (gs \<noteq> [] \<longrightarrow>
        ParseValue p rt (TStruct None gs) (VStruct ws) s pfx key =
          (case ParseStructFields p rt key gs ws of (ws', r) \<Rightarrow> (VStruct ws', r)))
   \<and> ParseValue p rt (TStruct (Some tn) gs) w s pfx key = ParseEnv rt tn key w
   \<and> (parseStructTags tF = (kF, dF) \<longrightarrow>
        ParseValue p rt (nestedStruct tgs (TStruct None [Field ''F'' (Some tF) TString]))
            (nestedValue (length tgs) (VStruct [VString old])) s pfx key =
          (nestedValue (length tgs)
             (VStruct [VString
                (if Get p (BuildKey p (composeKey (foldl composeKey key (map (\<lambda>tg. fst (parseStructTags tg)) tgs)) kF)) dF = []
                 then old
                 else Get p (BuildKey p (composeKey (foldl composeKey key (map (\<lambda>tg. fst (parseStructTags tg)) tgs)) kF)) dF)]),
           None))"
proof (intro conjI impI)
  show "composeKey pfx k = (if pfx = [] then k else pfx @ ''.'' @ k)" by (simp add: composeKey_def)
next
  assume "P \<noteq> []"
  then show "composeKey (composeKey P S) F = P @ ''.'' @ S @ ''.'' @ F"
    and "foldl composeKey P ks = P @ concat (map (\<lambda>k. ''.'' @ k) ks)"
    by (rule composeKey_twice, rule composeKey_path)
next
  assume "S \<noteq> []"
  then show "composeKey (composeKey P S) F = composeKey P (composeKey S F)" by (rule composeKey_assoc)
next
  assume "IsExported (Field n t ty)"
  then show "ParseStructFields p rt pfx (Field n t ty # fs) (v # vs) =
          (let key = composeKey pfx (fst (parseStructTags (tagValOf (Field n t ty))));
               strValues = Get p (BuildKey p key) (snd (parseStructTags (tagValOf (Field n t ty))))
           in if strValues = [] \<and> Kind ty \<noteq> KStruct
              then consResult v (ParseStructFields p rt pfx fs vs)
              else
                (case ParseValue p rt ty v strValues pfx key of
                   (v', Some e) \<Rightarrow> (v' # vs, Some e)
                 | (v', None) \<Rightarrow> consResult v' (ParseStructFields p rt pfx fs vs)))"
    by (simp add: ParseStructFields.simps)
next
  assume "gs \<noteq> []"
  then show "ParseValue p rt (TStruct None gs) (VStruct ws) s pfx key =
          (case ParseStructFields p rt key gs ws of (ws', r) \<Rightarrow> (VStruct ws', r))"
    by (simp add: ParseValue.simps)
next
  show "ParseValue p rt (TStruct (Some tn) gs) w s pfx key = ParseEnv rt tn key w"
    by (simp add: ParseValue.simps)
next
  assume "parseStructTags tF = (kF, dF)"
  then show "ParseValue p rt (nestedStruct tgs (TStruct None [Field ''F'' (Some tF) TString]))
            (nestedValue (length tgs) (VStruct [VString old])) s pfx key =
          (nestedValue (length tgs)
             (VStruct [VString
                (if Get p (BuildKey p (composeKey (foldl composeKey key (map (\<lambda>tg. fst (parseStructTags tg)) tgs)) kF)) dF = []
                 then old
                 else Get p (BuildKey p (composeKey (foldl composeKey key (map (\<lambda>tg. fst (parseStructTags tg)) tgs)) kF)) dF)]),
           None)"
    by (rule nested_lookup)
qed

theorem composed_key_lookup_witness:
  "\<forall>rt. ParseValue \<lparr>BuildKey = (\<lambda>k. ''<'' @ k @ ''>''), Get = (\<lambda>k d. k)\<rparr> rt
          (TStruct None [Field ''S'' (Some ''SERVER'')
             (TStruct None [Field ''S'' (Some ''TLS'')
                (TStruct None [Field ''S'' (Some ''CERT'')
                   (TStruct None [Field ''F'' (Some ''FILE,default=none'') TString])])])])
          (VStruct [VStruct [VStruct [VStruct [VString []]]]]) [] [] ''APP''
        = (VStruct [VStruct [VStruct [VStruct [VString ''<APP.SERVER.TLS.CERT.FILE>'']]]], None)"
proof
  fix rt :: golib
  have t: "parseStructTags ''SERVER'' = (''SERVER'', [])" "parseStructTags ''TLS'' = (''TLS'', [])"
    "parseStructTags ''CERT'' = (''CERT'', [])" "parseStructTags ''FILE,default=none'' = (''FILE'', ''none'')"
    by code_simp+
  show "ParseValue \<lparr>BuildKey = (\<lambda>k. ''<'' @ k @ ''>''), Get = (\<lambda>k d. k)\<rparr> rt
          (TStruct None [Field ''S'' (Some ''SERVER'')
             (TStruct None [Field ''S'' (Some ''TLS'')
                (TStruct None [Field ''S'' (Some ''CERT'')
                   (TStruct None [Field ''F'' (Some ''FILE,default=none'') TString])])])])
          (VStruct [VStruct [VStruct [VStruct [VString []]]]]) [] [] ''APP''
        = (VStruct [VStruct [VStruct [VStruct [VString ''<APP.SERVER.TLS.CERT.FILE>'']]]], None)"
    using composed_key_lookup [where p = "\<lparr>BuildKey = (\<lambda>k. ''<'' @ k @ ''>''), Get = (\<lambda>k d. k)\<rparr>"
        and rt = rt and tF = "''FILE,default=none''" and kF = "''FILE''" and dF = "''none''"
        and tgs = "[''SERVER'', ''TLS'', ''CERT'']" and old = "[]" and s = "[]" and pfx = "[]" and key = "''APP''"]
    by (simp add: t composeKey_def)
qed

section \<open>Empty strings (claim C2)\<close>

lemma parseTimeLoop_all_fail:
  assumes "\<forall>layout \<in> set formats. snd (time_Parse rt layout str) \<noteq> None"
  shows "\<exists>es. parseTimeLoop rt str formats errs = (GoTime 0, Some (JoinError es))"
  using assms
proof (induction formats arbitrary: errs)
  case Nil
  then show ?case by simp
next
  case (Cons f fs)
  then obtain a e where "time_Parse rt f str = (a, Some e)"
    by (cases "time_Parse rt f str") auto
  with Cons show ?case by simp
qed

text \<open>
  Claim C2 says that a field whose resolved string is empty is skipped unless it is a
  nested struct, which is walked, and that the walk returns no error for such fields.
  The guard of line 128 tests the kind of the field, and a \<^verbatim>\<open>time.Time\<close> is of kind
  Struct: with an empty string it is not skipped but given to \<^verbatim>\<open>parseTime\<close>, and no
  layout of \<^verbatim>\<open>timeFormats\<close> parses the empty string (each of them starts with an element
  that needs input, so \<^verbatim>\<open>time.Parse\<close> rejects it: the hypothesis on \<open>time_Parse\<close>). The
  walk stops there with the joined error, the field unchanged. The other two types
  of the same switch, \<^verbatim>\<open>time.Duration\<close> and \<^verbatim>\<open>*url.URL\<close>, are not of kind Struct and are
  skipped, as every field of another kind is; and a struct field is walked with the
  composed key as its prefix.
\<close>

theorem empty_time_field_is_an_error:
  "IsExported (Field n t ty)
   \<and> Get p (BuildKey p (composeKey pfx (fst (parseStructTags (tagValOf (Field n t ty))))))
        (snd (parseStructTags (tagValOf (Field n t ty)))) = []
   \<and> (\<forall>layout \<in> set timeFormats. snd (time_Parse rt layout []) \<noteq> None) \<longrightarrow>
   (ty = TTime \<longrightarrow>
      (\<exists>e. ParseStructFields p rt pfx (Field n t ty # fs) (v # vs) = (v # vs, Some e)))
   \<and> (Kind ty \<noteq> KStruct \<longrightarrow>
        ParseStructFields p rt pfx (Field n t ty # fs) (v # vs) =
          consResult v (ParseStructFields p rt pfx fs vs))
   \<and> (ty = TStruct None gs \<and> gs \<noteq> [] \<and> v = VStruct ws \<longrightarrow>
        ParseStructFields p rt pfx (Field n t ty # fs) (v # vs) =
          (case ParseStructFields p rt (composeKey pfx (fst (parseStructTags (tagValOf (Field n t ty))))) gs ws of
             (ws', Some e) \<Rightarrow> (VStruct ws' # vs, Some e)
           | (ws', None) \<Rightarrow> consResult (VStruct ws') (ParseStructFields p rt pfx fs vs)))"
proof (intro impI conjI)
  assume a: "IsExported (Field n t ty)
   \<and> Get p (BuildKey p (composeKey pfx (fst (parseStructTags (tagValOf (Field n t ty))))))
        (snd (parseStructTags (tagValOf (Field n t ty)))) = []
   \<and> (\<forall>layout \<in> set timeFormats. snd (time_Parse rt layout []) \<noteq> None)"
  then have ex: "IsExported (Field n t ty)"
    and g: "Get p (BuildKey p (composeKey pfx (fst (parseStructTags (tagValOf (Field n t ty))))))
        (snd (parseStructTags (tagValOf (Field n t ty)))) = []"
    and tf: "\<forall>layout \<in> set timeFormats. snd (time_Parse rt layout []) \<noteq> None"
    by simp_all
  {
    assume ty: "ty = TTime"
    from parseTimeLoop_all_fail [OF tf, of "[]"] obtain es
      where "parseTime rt [] = (GoTime 0, Some (JoinError es))"
      by (auto simp: parseTime_def)
    then have "ParseStructFields p rt pfx (Field n t ty # fs) (v # vs) = (v # vs, Some (JoinError es))"
      using ex g ty by (simp add: ParseStructFields.simps ParseValue.simps Let_def)
    then show "\<exists>e. ParseStructFields p rt pfx (Field n t ty # fs) (v # vs) = (v # vs, Some e)"
      by blast
  }
  {
    assume "Kind ty \<noteq> KStruct"
    then show "ParseStructFields p rt pfx (Field n t ty # fs) (v # vs) =
          consResult v (ParseStructFields p rt pfx fs vs)"
      using ex g by (simp add: ParseStructFields.simps Let_def)
  }
  {
    assume "ty = TStruct None gs \<and> gs \<noteq> [] \<and> v = VStruct ws"
    then show "ParseStructFields p rt pfx (Field n t ty # fs) (v # vs) =
          (case ParseStructFields p rt (composeKey pfx (fst (parseStructTags (tagValOf (Field n t ty))))) gs ws of
             (ws', Some e) \<Rightarrow> (VStruct ws' # vs, Some e)
           | (ws', None) \<Rightarrow> consResult (VStruct ws') (ParseStructFields p rt pfx fs vs))"
      using ex g by (simp add: ParseStructFields.simps ParseValue.simps Let_def split: prod.splits option.splits)
  }
qed

theorem empty_time_field_is_an_error_witness:
  "\<exists>e. ParseStruct (NewParser Map.empty None None)
          \<lparr>time_Parse = (\<lambda>layout s. if s = [] then (GoTime 0, Some (LibError ''cannot parse'')) else (GoTime 1, None)),
           url_Parse = (\<lambda>s. (GoURL s, None)),
           time_ParseDuration = (\<lambda>s. (0, Some (LibError ''invalid duration''))),
           strconv_ParseFloat = (\<lambda>s. (Float64bits 0, Some (LibError ''invalid syntax''))),
           float32 = (\<lambda>f. f),
           ParseEnv = (\<lambda>tn pfx v. (v, None))\<rparr>
          (PointerTo (TStruct None [Field ''At'' None TTime, Field ''Name'' (Some ''NAME,default=Omid'') TString])
             (VStruct [VTime (GoTime 0), VString []])) ''APP''
        = Returns (PointerTo (TStruct None [Field ''At'' None TTime, Field ''Name'' (Some ''NAME,default=Omid'') TString])
             (VStruct [VTime (GoTime 0), VString []]), Some e)"
proof -
  let ?p = "NewParser Map.empty None None"
  let ?rt = "\<lparr>time_Parse = (\<lambda>layout s. if s = [] then (GoTime 0, Some (LibError ''cannot parse'')) else (GoTime 1, None)),
           url_Parse = (\<lambda>s. (GoURL s, None)),
           time_ParseDuration = (\<lambda>s. (0, Some (LibError ''invalid duration''))),
           strconv_ParseFloat = (\<lambda>s. (Float64bits 0, Some (LibError ''invalid syntax''))),
           float32 = (\<lambda>f. f),
           ParseEnv = (\<lambda>tn pfx v. (v, None))\<rparr>"
  have ex: "IsExported (Field ''At'' None TTime)" by (simp add: IsExported_def isUpper_def)
  have tv: "parseStructTags (tagValOf (Field ''At'' None TTime)) = (''AT'', [])" by code_simp
  have g: "Get ?p (BuildKey ?p (composeKey ''APP'' (fst (parseStructTags (tagValOf (Field ''At'' None TTime))))))
             (snd (parseStructTags (tagValOf (Field ''At'' None TTime)))) = []"
    by (simp add: tv NewParser_def DefaultGetFunc_def os_Getenv_def)
  have tf: "\<forall>layout \<in> set timeFormats. snd (time_Parse ?rt layout []) \<noteq> None" by simp
  from empty_time_field_is_an_error [where n = "''At''" and t = None and ty = TTime and p = ?p and pfx = "''APP''"
      and rt = ?rt and fs = "[Field ''Name'' (Some ''NAME,default=Omid'') TString]" and v = "VTime (GoTime 0)"
      and vs = "[VString []]"] ex g tf
  obtain e where "ParseStructFields ?p ?rt ''APP''
       [Field ''At'' None TTime, Field ''Name'' (Some ''NAME,default=Omid'') TString] [VTime (GoTime 0), VString []]
       = ([VTime (GoTime 0), VString []], Some e)"
    by blast
  then show ?thesis by (simp add: ParseStruct_def)
qed

end
